theory Spec2Isabelle
  imports Complex_Main
begin

section \<open>Python values, errors and floats\<close>

text \<open>
  The evaluator of \<^verbatim>\<open>src/evaluator.py\<close> is embedded as HOL functions. Every
  place where the Python code can raise is a branch that returns \<open>Inl\<close> of the
  exception's class; a normal return is \<open>Inr\<close>.
\<close>

datatype py_error =
  AssertionError | IndexError | RuntimeError | TypeError | ValueError
  | ZeroDivisionError | JSONDecodeError

text \<open>
  A Python float is a real number or NaN. Rounding and overflow to infinity are not
  part of the model. NaN is, because one torch operation of the source produces it from
  finite inputs: the mean of a tensor with no elements.
\<close>

datatype pyfloat = Fl real | NaN

fun bind_err :: "py_error + 'a \<Rightarrow> ('a \<Rightarrow> py_error + 'b) \<Rightarrow> py_error + 'b" where
  "bind_err (Inl e) f = Inl e"
| "bind_err (Inr x) f = f x"

text \<open>A comprehension or generator whose body can raise: left to right, stopping at the
  first exception.\<close>

fun map_err :: "('a \<Rightarrow> py_error + 'b) \<Rightarrow> 'a list \<Rightarrow> py_error + 'b list" where
  "map_err f [] = Inr []"
| "map_err f (x # xs) =
     bind_err (f x) (\<lambda>y. bind_err (map_err f xs) (\<lambda>ys. Inr (y # ys)))"

fun fl_lift2 :: "(real \<Rightarrow> real \<Rightarrow> real) \<Rightarrow> pyfloat \<Rightarrow> pyfloat \<Rightarrow> pyfloat" where
  "fl_lift2 f (Fl a) (Fl b) = Fl (f a b)"
| "fl_lift2 f (Fl a) NaN = NaN"
| "fl_lift2 f NaN b = NaN"

definition fl_add :: "pyfloat \<Rightarrow> pyfloat \<Rightarrow> pyfloat" where
  "fl_add = fl_lift2 (+)"

definition fl_sub :: "pyfloat \<Rightarrow> pyfloat \<Rightarrow> pyfloat" where
  "fl_sub = fl_lift2 (-)"

definition fl_mul :: "pyfloat \<Rightarrow> pyfloat \<Rightarrow> pyfloat" where
  "fl_mul = fl_lift2 (*)"

text \<open>\<^verbatim>\<open>x / 2\<close> and \<^verbatim>\<open>x * n\<close> with a literal or a count on the right.\<close>

fun fl_scale :: "(real \<Rightarrow> real) \<Rightarrow> pyfloat \<Rightarrow> pyfloat" where
  "fl_scale f (Fl a) = Fl (f a)"
| "fl_scale f NaN = NaN"

text \<open>\<^verbatim>\<open>x / n\<close> for a float \<open>x\<close> and an integer count \<open>n\<close>: Python raises
  ZeroDivisionError when \<open>n\<close> is 0, whatever \<open>x\<close> is (also for NaN).\<close>

definition py_truediv :: "pyfloat \<Rightarrow> nat \<Rightarrow> py_error + pyfloat" where
  "py_truediv x n =
     (if n = 0 then Inl ZeroDivisionError else Inr (fl_scale (\<lambda>a. a / real n) x))"

text \<open>\<^verbatim>\<open>math.sqrt\<close>: ValueError on a negative argument, NaN on NaN.\<close>

fun py_sqrt :: "pyfloat \<Rightarrow> py_error + pyfloat" where
  "py_sqrt NaN = Inr NaN"
| "py_sqrt (Fl a) = (if a < 0 then Inl ValueError else Inr (Fl (sqrt a)))"

text \<open>\<^verbatim>\<open>sum(...)\<close> of floats: starts at 0 and adds from the left.\<close>

definition py_sum :: "pyfloat list \<Rightarrow> pyfloat" where
  "py_sum xs = foldl fl_add (Fl 0) xs"

section \<open>Tensors\<close>

text \<open>
  A torch tensor of rank \<open>n\<close> is a nested list of depth \<open>n\<close> (row-major, outermost
  dimension first); the collaborators' contracts fix the ranks: logits have rank 3
  (choice, position, vocabulary), an attention tensor rank 4 (choice, head, query
  position, key position), a stacked cache rank 5 (layer, choice, head, position,
  embedding). A nested list does not record the inner sizes of a tensor with an empty
  outer dimension.
\<close>

type_synonym tensor1 = "real list"
type_synonym tensor2 = "tensor1 list"
type_synonym tensor3 = "tensor2 list"
type_synonym tensor4 = "tensor3 list"
type_synonym tensor5 = "tensor4 list"

text \<open>
  One dimension of torch's broadcasting for an elementwise binary operation on tensors
  of the same rank: equal sizes pair up, a size of 1 is repeated, anything else is a
  RuntimeError.
\<close>

definition broadcast_dim ::
  "('a \<Rightarrow> 'b \<Rightarrow> py_error + 'c) \<Rightarrow> 'a list \<Rightarrow> 'b list \<Rightarrow> py_error + 'c list" where
  "broadcast_dim f xs ys =
     (if length xs = length ys then map_err (\<lambda>(x, y). f x y) (zip xs ys)
      else if length xs = 1 then map_err (\<lambda>y. f (hd xs) y) ys
      else if length ys = 1 then map_err (\<lambda>x. f x (hd ys)) xs
      else Inl RuntimeError)"

definition sub0 :: "real \<Rightarrow> real \<Rightarrow> py_error + real" where
  "sub0 a b = Inr (a - b)"

definition sub1 :: "tensor1 \<Rightarrow> tensor1 \<Rightarrow> py_error + tensor1" where
  "sub1 = broadcast_dim sub0"

definition sub2 :: "tensor2 \<Rightarrow> tensor2 \<Rightarrow> py_error + tensor2" where
  "sub2 = broadcast_dim sub1"

definition sub3 :: "tensor3 \<Rightarrow> tensor3 \<Rightarrow> py_error + tensor3" where
  "sub3 = broadcast_dim sub2"

definition sub4 :: "tensor4 \<Rightarrow> tensor4 \<Rightarrow> py_error + tensor4" where
  "sub4 = broadcast_dim sub3"

definition sub5 :: "tensor5 \<Rightarrow> tensor5 \<Rightarrow> py_error + tensor5" where
  "sub5 = broadcast_dim sub4"

definition flat3 :: "tensor3 \<Rightarrow> real list" where
  "flat3 t = concat (concat t)"

definition flat4 :: "tensor4 \<Rightarrow> real list" where
  "flat4 t = concat (concat (concat t))"

definition flat5 :: "tensor5 \<Rightarrow> real list" where
  "flat5 t = concat (concat (concat (concat t)))"

text \<open>\<^verbatim>\<open>.mean().item()\<close>: the mean over all elements, NaN when there are none.\<close>

definition tensor_mean :: "real list \<Rightarrow> pyfloat" where
  "tensor_mean xs = (if xs = [] then NaN else Fl (sum_list xs / real (length xs)))"

text \<open>
  \<^verbatim>\<open>_calc_tensor_error\<close> (line 62):
  \<^verbatim>\<open>((tensor1.to(self.device) - tensor2.to(self.device)) ** 2).mean().item()\<close>.
  The source applies it at ranks 3, 4 and 5; the subtraction and the flattening of the
  rank are the first two arguments. Moving a tensor to a device does not change its
  value.
\<close>

definition calc_tensor_error ::
  "('t \<Rightarrow> 't \<Rightarrow> py_error + 't) \<Rightarrow> ('t \<Rightarrow> real list) \<Rightarrow> 't \<Rightarrow> 't \<Rightarrow> py_error + pyfloat" where
  "calc_tensor_error sub flat tensor1 tensor2 =
     bind_err (sub tensor1 tensor2)
       (\<lambda>d. Inr (tensor_mean (map (\<lambda>x. x ^ 2) (flat d))))"

text \<open>
  \<^verbatim>\<open>_calc_attention_error\<close> (line 65):
  \<^verbatim>\<open>sum(self._calc_tensor_error(attn1, attn2) for attn1, attn2 in zip(attention1, attention2)) / len(attention1)\<close>.
\<close>

definition calc_attention_error :: "tensor4 list \<Rightarrow> tensor4 list \<Rightarrow> py_error + pyfloat" where
  "calc_attention_error attention1 attention2 =
     bind_err
       (map_err (\<lambda>(attn1, attn2). calc_tensor_error sub4 flat4 attn1 attn2)
          (zip attention1 attention2))
       (\<lambda>errs. py_truediv (py_sum errs) (length attention1))"

section \<open>Indexing and slicing\<close>

text \<open>Indexing with one integer: a negative index counts from the end, an index out of
  range raises IndexError.\<close>

definition py_index :: "'a list \<Rightarrow> int \<Rightarrow> py_error + 'a" where
  "py_index xs i =
     (let n = int (length xs); j = (if i < 0 then i + n else i)
      in if 0 \<le> j \<and> j < n then Inr (xs ! nat j) else Inl IndexError)"

text \<open>
  Indexing one tensor with two one-dimensional index tensors (advanced indexing): the
  index tensors are broadcast against each other, IndexError when they cannot be.
\<close>

definition broadcast_index :: "nat list \<Rightarrow> nat list \<Rightarrow> py_error + (nat \<times> nat) list" where
  "broadcast_index js ks =
     (if length js = length ks then Inr (zip js ks)
      else if length js = 1 then Inr (map (\<lambda>k. (hd js, k)) ks)
      else if length ks = 1 then Inr (map (\<lambda>j. (j, hd ks)) js)
      else Inl IndexError)"

text \<open>\<^verbatim>\<open>F.log_softmax(x, dim=-1)\<close> on one vector of the vocabulary dimension.\<close>

definition log_softmax :: "tensor1 \<Rightarrow> tensor1" where
  "log_softmax xs = map (\<lambda>x. x - ln (sum_list (map exp xs))) xs"

text \<open>The shape of a rank-4 tensor, read along its first elements.\<close>

definition shape4 :: "tensor4 \<Rightarrow> nat list" where
  "shape4 t =
     (case t of [] \<Rightarrow> [0, 0, 0, 0] | a # _ \<Rightarrow>
        length t # (case a of [] \<Rightarrow> [0, 0, 0] | b # _ \<Rightarrow>
          length a # (case b of [] \<Rightarrow> [0, 0] | c # _ \<Rightarrow> [length b, length c])))"

text \<open>\<^verbatim>\<open>torch.stack\<close>: RuntimeError on an empty list and on tensors of different
  shapes.\<close>

definition torch_stack :: "tensor4 list \<Rightarrow> py_error + tensor5" where
  "torch_stack ts =
     (if ts = [] then Inl RuntimeError
      else if list_all (\<lambda>t. shape4 t = shape4 (hd ts)) ts then Inr ts
      else Inl RuntimeError)"

section \<open>The data model\<close>

text \<open>\<^verbatim>\<open>Question\<close> (external): the fields the evaluator reads. Lengths are counts and
  token ids are vocabulary indices, so both are natural numbers; \<open>answer_idx\<close> is an
  integer that the evaluator only compares with the choice indices.\<close>

record question =
  input_ids :: "nat list list"
  question_length :: nat
  choice_length :: "nat list"
  answer_idx :: int

text \<open>What \<^verbatim>\<open>model.forward(..., use_cache=True, output_attentions=True, return_dict=True)\<close>
  returns.\<close>

record model_output =
  logits :: tensor3
  attentions :: "tensor4 list"
  past_key_values :: "(tensor4 \<times> tensor4) list"

text \<open>The model (external): its name and its forward pass, which takes the token ids and
  the optional \<^verbatim>\<open>past_key_values\<close>.\<close>

record llama_model =
  name_or_path :: string
  forward :: "nat list list \<Rightarrow> (tensor4 \<times> tensor4) list option \<Rightarrow> py_error + model_output"

text \<open>A \<^verbatim>\<open>Quantizer\<close> (external): its level, its parameter mapping (any type with
  equality) and the two methods the evaluator calls.\<close>

record 'p quantizer =
  level :: string
  quantizer_params :: 'p
  quantize :: "tensor5 \<Rightarrow> tensor4 list \<Rightarrow> py_error + (tensor5 \<times> pyfloat)"
  calc_quantized_cache_size_per_token :: "pyfloat \<Rightarrow> llama_model \<Rightarrow> py_error + pyfloat"

text \<open>\<^verbatim>\<open>EvaluationResult\<close> (line 16). Every field holds a float;
  \<open>answer_log_probability\<close> is the one field the source can leave at \<^verbatim>\<open>None\<close>
  (line 92).\<close>

record EvaluationResult =
  accuracy :: pyfloat
  accuracy_confidence :: pyfloat
  answer_log_probability :: "pyfloat option"
  quantization_error :: pyfloat
  key_quantization_error :: pyfloat
  value_quantization_error :: pyfloat
  attention_error :: pyfloat
  logit_error :: pyfloat
  average_n_bits :: pyfloat
  key_average_n_bits :: pyfloat
  value_average_n_bits :: pyfloat
  average_size :: pyfloat
  key_average_size :: pyfloat
  value_average_size :: pyfloat

text \<open>\<^verbatim>\<open>EvaluationResult()\<close>: every field at its default 0.0.\<close>

definition EvaluationResult_default :: EvaluationResult where
  "EvaluationResult_default =
     \<lparr>accuracy = Fl 0, accuracy_confidence = Fl 0, answer_log_probability = Some (Fl 0),
      quantization_error = Fl 0, key_quantization_error = Fl 0,
      value_quantization_error = Fl 0, attention_error = Fl 0, logit_error = Fl 0,
      average_n_bits = Fl 0, key_average_n_bits = Fl 0, value_average_n_bits = Fl 0,
      average_size = Fl 0, key_average_size = Fl 0, value_average_size = Fl 0\<rparr>"

text \<open>The fields of an \<^verbatim>\<open>Evaluator\<close>. The device is left out: moving a tensor to it
  does not change the tensor's value.\<close>

record 'p evaluator =
  version :: string
  model :: llama_model
  questions :: "question list"
  key_quantizer :: "'p quantizer"
  value_quantizer :: "'p quantizer"
  enable_draw_cache_insights :: bool

text \<open>\<^verbatim>\<open>Evaluator.__init__\<close> (line 35), with its two assertions (assertions enabled,
  as they are unless Python runs with \<^verbatim>\<open>-O\<close>).\<close>

definition Evaluator_init ::
  "string \<Rightarrow> llama_model \<Rightarrow> question list \<Rightarrow> 'p quantizer \<Rightarrow> 'p quantizer \<Rightarrow> bool
     \<Rightarrow> py_error + 'p evaluator" where
  "Evaluator_init ver mdl qs kq vq draw =
     (if draw \<and> level kq \<noteq> ''token'' then Inl AssertionError
      else if draw \<and> level vq \<noteq> ''token'' then Inl AssertionError
      else Inr \<lparr>version = ver, model = mdl, questions = qs, key_quantizer = kq,
                value_quantizer = vq, enable_draw_cache_insights = draw\<rparr>)"

text \<open>\<^verbatim>\<open>Evaluator.params\<close> (line 52): the fingerprint, a mapping with five fixed keys.\<close>

record 'p fingerprint =
  p_version :: string
  p_model_name :: string
  p_question_count :: nat
  p_key_quantizer :: 'p
  p_value_quantizer :: 'p

definition params :: "'p evaluator \<Rightarrow> 'p fingerprint" where
  "params ev =
     \<lparr>p_version = version ev, p_model_name = name_or_path (model ev),
      p_question_count = length (questions ev),
      p_key_quantizer = quantizer_params (key_quantizer ev),
      p_value_quantizer = quantizer_params (value_quantizer ev)\<rparr>"

text \<open>The state outside the evaluator: the cache files, each with the content
  \<^verbatim>\<open>json.load\<close> reads from it (a list of records, or text that is not JSON), and a
  count of the forward passes the model has run.\<close>

record 'p cache_entry =
  entry_params :: "'p fingerprint"
  entry_results :: EvaluationResult

datatype 'p file_content = Records "'p cache_entry list" | NotJson

record 'p world =
  files :: "string \<rightharpoonup> 'p file_content"
  forward_calls :: nat

definition call_forward ::
  "llama_model \<Rightarrow> nat list list \<Rightarrow> (tensor4 \<times> tensor4) list option \<Rightarrow> 'p world
     \<Rightarrow> py_error + (model_output \<times> 'p world)" where
  "call_forward mdl ids past w =
     bind_err (forward mdl ids past)
       (\<lambda>out. Inr (out, w\<lparr>forward_calls := Suc (forward_calls w)\<rparr>))"

section \<open>Scoring the choices\<close>

text \<open>Line 90: \<^verbatim>\<open>F.log_softmax(result.logits[:,question_len-1], dim=-1)\<close>. The position
  \<open>question_len - 1\<close> is an integer index, so a prefix of length 0 reads position -1,
  the last one.\<close>

definition first_word_log_softmax :: "tensor3 \<Rightarrow> nat \<Rightarrow> py_error + tensor2" where
  "first_word_log_softmax lgts question_len =
     bind_err (map_err (\<lambda>row. py_index row (int question_len - 1)) lgts)
       (\<lambda>sel. Inr (map log_softmax sel))"

text \<open>Line 91: \<^verbatim>\<open>F.log_softmax(quantized_result.logits, dim=-1)\<close>.\<close>

definition quantized_log_softmax :: "tensor3 \<Rightarrow> tensor3" where
  "quantized_log_softmax lgts = map (map log_softmax) lgts"

text \<open>
  Lines 94 to 96, the score of one choice:
  \<^verbatim>\<open>
  quantized_log_probability = first_word_log_softmax[choice_idx, input_ids[choice_idx, question_len]].item()
  quantized_log_probability += quantized_log_softmax[choice_idx, torch.arange(choice_len-1), input_ids[choice_idx,question_len+1:question_len+choice_len]].sum().item()
  quantized_log_probability /= choice_len
  \<close>
  \<^verbatim>\<open>torch.arange(-1)\<close> (a choice of length 0) raises RuntimeError before the division
  is reached.
\<close>

definition choice_log_probability ::
  "tensor2 \<Rightarrow> tensor3 \<Rightarrow> nat list list \<Rightarrow> nat \<Rightarrow> nat \<Rightarrow> nat \<Rightarrow> py_error + real" where
  "choice_log_probability fw qls ids question_len choice_idx choice_len =
     bind_err (py_index ids (int choice_idx)) (\<lambda>row.
     bind_err (py_index row (int question_len)) (\<lambda>tok.
     bind_err (py_index fw (int choice_idx)) (\<lambda>fw_row.
     bind_err (py_index fw_row (int tok)) (\<lambda>first.
     if choice_len = 0 then Inl RuntimeError
     else
       bind_err (py_index qls (int choice_idx)) (\<lambda>q_rows.
       bind_err (broadcast_index [0..<choice_len - 1]
                   (take (choice_len - 1) (drop (question_len + 1) row))) (\<lambda>pairs.
       bind_err (map_err (\<lambda>(j, k). bind_err (py_index q_rows (int j))
                                       (\<lambda>v. py_index v (int k))) pairs) (\<lambda>rest.
       Inr ((first + sum_list rest) / real choice_len))))))))"

text \<open>
  Lines 92 to 101, the loop over \<^verbatim>\<open>enumerate(question.choice_length)\<close>. The state is
  \<^verbatim>\<open>(max_log_probability, max_choice_idx, answer_log_probability)\<close>, all \<^verbatim>\<open>None\<close> at
  the start.
\<close>

fun score_choices ::
  "tensor2 \<Rightarrow> tensor3 \<Rightarrow> nat list list \<Rightarrow> nat \<Rightarrow> int \<Rightarrow> nat \<Rightarrow> nat list
     \<Rightarrow> real option \<times> nat option \<times> real option
     \<Rightarrow> py_error + (real option \<times> nat option \<times> real option)" where
  "score_choices fw qls ids question_len ans choice_idx [] st = Inr st"
| "score_choices fw qls ids question_len ans choice_idx (choice_len # rest) (mx, mx_idx, alp) =
     (case choice_log_probability fw qls ids question_len choice_idx choice_len of
        Inl e \<Rightarrow> Inl e
      | Inr lp \<Rightarrow>
          (let alp' = (if int choice_idx = ans then Some lp else alp) in
           if (case mx of None \<Rightarrow> True | Some m \<Rightarrow> lp > m)
           then score_choices fw qls ids question_len ans (Suc choice_idx) rest
                  (Some lp, Some choice_idx, alp')
           else score_choices fw qls ids question_len ans (Suc choice_idx) rest
                  (mx, mx_idx, alp')))"

section \<open>Diagnostics\<close>

text \<open>
  \<^verbatim>\<open>draw_cache_insights\<close> (line 185). The plots and the printed lines are outside the
  model; what is kept is every point where the method can raise: the two assertions,
  \<^verbatim>\<open>cache[:,0,:,:,:]\<close> in the first loop, and in the second loop
  \<^verbatim>\<open>cache[:,0,:,1,:]\<close> and the minimum of the selected values (numpy raises
  ValueError on an empty array).
\<close>

definition draw_cache_insights :: "'p evaluator \<Rightarrow> tensor5 list \<Rightarrow> py_error + unit" where
  "draw_cache_insights ev caches =
     (if level (key_quantizer ev) \<noteq> ''token'' then Inl AssertionError
      else if level (value_quantizer ev) \<noteq> ''token'' then Inl AssertionError
      else
        bind_err (map_err (\<lambda>cache. map_err (\<lambda>layer. py_index layer 0) cache) caches) (\<lambda>_.
        bind_err (map_err (\<lambda>cache.
            bind_err (map_err (\<lambda>layer. bind_err (py_index layer 0)
                         (\<lambda>heads. map_err (\<lambda>h. py_index h 1) heads)) cache)
              (\<lambda>sel. if concat (concat sel) = [] then Inl ValueError else Inr ())) caches) (\<lambda>_.
        Inr ())))"

section \<open>One question\<close>

text \<open>
  \<^verbatim>\<open>_evaluate_single\<close> (line 68), statement by statement. The two quantizers and the
  model are the evaluator's collaborators; each forward pass is counted in the world.
\<close>

definition evaluate_single ::
  "'p evaluator \<Rightarrow> nat \<Rightarrow> question \<Rightarrow> 'p world \<Rightarrow> py_error + (EvaluationResult \<times> 'p world)" where
  "evaluate_single ev idx q w =
     (let question_len = question_length q; ids = input_ids q in
      bind_err (call_forward (model ev) ids None w) (\<lambda>(result, w1).
      let question_attentions =
            map (map (map (\<lambda>m. map (take question_len) (take question_len m))))
              (attentions result) in
      bind_err (torch_stack (map (\<lambda>(key, _). map (map (take question_len)) key)
                  (past_key_values result))) (\<lambda>key_cache.
      bind_err (torch_stack (map (\<lambda>(_, val). map (map (take question_len)) val)
                  (past_key_values result))) (\<lambda>value_cache.
      bind_err (quantize (key_quantizer ev) key_cache question_attentions)
        (\<lambda>(quantized_key_cache, key_n_bits).
      bind_err (quantize (value_quantizer ev) value_cache question_attentions)
        (\<lambda>(quantized_value_cache, value_n_bits).
      let quantized_kvcache = zip quantized_key_cache quantized_value_cache in
      bind_err (if enable_draw_cache_insights ev \<and> idx = 0
                then draw_cache_insights ev
                       [key_cache, quantized_key_cache, value_cache, quantized_value_cache]
                else Inr ()) (\<lambda>_.
      bind_err (call_forward (model ev) (map (drop question_len) ids)
                  (Some quantized_kvcache) w1) (\<lambda>(quantized_result, w2).
      bind_err (first_word_log_softmax (logits result) question_len) (\<lambda>fw.
      bind_err (score_choices fw (quantized_log_softmax (logits quantized_result)) ids
                  question_len (answer_idx q) 0 (choice_length q) (None, None, None))
        (\<lambda>(mx, mx_idx, alp).
      bind_err (calc_tensor_error sub5 flat5 key_cache quantized_key_cache) (\<lambda>key_err.
      bind_err (calc_tensor_error sub5 flat5 value_cache quantized_value_cache) (\<lambda>value_err.
      bind_err (calc_attention_error
                  (map (map (map (\<lambda>m. map (take question_len) (drop question_len m))))
                     (attentions result))
                  (map (map (map (map (take question_len))))
                     (attentions quantized_result))) (\<lambda>attn_err.
      bind_err (calc_tensor_error sub3 flat3 (map (drop question_len) (logits result))
                  (logits quantized_result)) (\<lambda>lgt_err.
      bind_err (calc_quantized_cache_size_per_token (key_quantizer ev) key_n_bits (model ev))
        (\<lambda>key_size.
      bind_err (calc_quantized_cache_size_per_token (value_quantizer ev) value_n_bits (model ev))
        (\<lambda>value_size.
      Inr (\<lparr>accuracy = (if (case mx_idx of None \<Rightarrow> False | Some i \<Rightarrow> int i = answer_idx q)
                          then Fl 1 else Fl 0),
            accuracy_confidence = Fl 0,
            answer_log_probability = map_option Fl alp,
            quantization_error = fl_scale (\<lambda>a. a / 2) (fl_add key_err value_err),
            key_quantization_error = key_err,
            value_quantization_error = value_err,
            attention_error = attn_err,
            logit_error = lgt_err,
            average_n_bits = fl_scale (\<lambda>a. a / 2) (fl_add key_n_bits value_n_bits),
            key_average_n_bits = key_n_bits,
            value_average_n_bits = value_n_bits,
            average_size = fl_scale (\<lambda>a. a / 2) (fl_add key_size value_size),
            key_average_size = key_size,
            value_average_size = value_size\<rparr>, w2)))))))))))))))))"

section \<open>The corpus\<close>

text \<open>
  Lines 136 to 148, the body of the loop of \<^verbatim>\<open>evaluate\<close> after the call of
  \<^verbatim>\<open>_evaluate_single\<close>. Adding \<^verbatim>\<open>None\<close> to a float raises TypeError.
\<close>

definition accumulate ::
  "EvaluationResult \<Rightarrow> EvaluationResult \<Rightarrow> nat \<Rightarrow> py_error + EvaluationResult" where
  "accumulate result single_result n_tokens =
     (case (answer_log_probability result, answer_log_probability single_result) of
        (Some a, Some b) \<Rightarrow>
          Inr \<lparr>accuracy = fl_add (accuracy result) (accuracy single_result),
               accuracy_confidence = accuracy_confidence result,
               answer_log_probability = Some (fl_add a b),
               quantization_error =
                 fl_add (quantization_error result) (quantization_error single_result),
               key_quantization_error =
                 fl_add (key_quantization_error result) (key_quantization_error single_result),
               value_quantization_error =
                 fl_add (value_quantization_error result)
                   (value_quantization_error single_result),
               attention_error = fl_add (attention_error result) (attention_error single_result),
               logit_error = fl_add (logit_error result) (logit_error single_result),
               average_n_bits =
                 fl_add (average_n_bits result)
                   (fl_scale (\<lambda>a. a * real n_tokens) (average_n_bits single_result)),
               key_average_n_bits =
                 fl_add (key_average_n_bits result)
                   (fl_scale (\<lambda>a. a * real n_tokens) (key_average_n_bits single_result)),
               value_average_n_bits =
                 fl_add (value_average_n_bits result)
                   (fl_scale (\<lambda>a. a * real n_tokens) (value_average_n_bits single_result)),
               average_size =
                 fl_add (average_size result)
                   (fl_scale (\<lambda>a. a * real n_tokens) (average_size single_result)),
               key_average_size =
                 fl_add (key_average_size result)
                   (fl_scale (\<lambda>a. a * real n_tokens) (key_average_size single_result)),
               value_average_size =
                 fl_add (value_average_size result)
                   (fl_scale (\<lambda>a. a * real n_tokens) (value_average_size single_result))\<rparr>
      | _ \<Rightarrow> Inl TypeError)"

text \<open>Lines 132 to 148: the loop over \<^verbatim>\<open>enumerate(self.questions)\<close>, with the running
  result and \<^verbatim>\<open>total_tokens\<close>.\<close>

fun evaluate_loop ::
  "'p evaluator \<Rightarrow> nat \<Rightarrow> question list \<Rightarrow> EvaluationResult \<Rightarrow> nat \<Rightarrow> 'p world
     \<Rightarrow> py_error + (EvaluationResult \<times> nat \<times> 'p world)" where
  "evaluate_loop ev idx [] result total_tokens w = Inr (result, total_tokens, w)"
| "evaluate_loop ev idx (q # rest) result total_tokens w =
     (case evaluate_single ev idx q w of
        Inl e \<Rightarrow> Inl e
      | Inr (single_result, w') \<Rightarrow>
          (case accumulate result single_result (question_length q) of
             Inl e \<Rightarrow> Inl e
           | Inr result' \<Rightarrow>
               evaluate_loop ev (Suc idx) rest result' (total_tokens + question_length q) w'))"

text \<open>Lines 149 to 163: the divisions after the loop, in the order of the source, and
  the confidence interval of line 151.\<close>

definition div_field :: "pyfloat option \<Rightarrow> nat \<Rightarrow> py_error + pyfloat" where
  "div_field x n = (case x of None \<Rightarrow> Inl TypeError | Some a \<Rightarrow> py_truediv a n)"

definition finalize :: "EvaluationResult \<Rightarrow> nat \<Rightarrow> nat \<Rightarrow> py_error + EvaluationResult" where
  "finalize result n total_tokens =
     bind_err (py_truediv (accuracy result) n) (\<lambda>acc.
     bind_err (py_truediv (fl_mul acc (fl_sub (Fl 1) acc)) n) (\<lambda>var.
     bind_err (py_sqrt var) (\<lambda>root.
     bind_err (div_field (answer_log_probability result) n) (\<lambda>alp.
     bind_err (py_truediv (quantization_error result) n) (\<lambda>qerr.
     bind_err (py_truediv (key_quantization_error result) n) (\<lambda>kerr.
     bind_err (py_truediv (value_quantization_error result) n) (\<lambda>verr.
     bind_err (py_truediv (attention_error result) n) (\<lambda>aerr.
     bind_err (py_truediv (logit_error result) n) (\<lambda>lerr.
     bind_err (py_truediv (average_size result) total_tokens) (\<lambda>sz.
     bind_err (py_truediv (key_average_size result) total_tokens) (\<lambda>ksz.
     bind_err (py_truediv (value_average_size result) total_tokens) (\<lambda>vsz.
     bind_err (py_truediv (average_n_bits result) total_tokens) (\<lambda>bits.
     bind_err (py_truediv (key_average_n_bits result) total_tokens) (\<lambda>kbits.
     bind_err (py_truediv (value_average_n_bits result) total_tokens) (\<lambda>vbits.
     Inr \<lparr>accuracy = acc,
          accuracy_confidence = fl_mul (Fl 1.96) root,
          answer_log_probability = Some alp,
          quantization_error = qerr,
          key_quantization_error = kerr,
          value_quantization_error = verr,
          attention_error = aerr,
          logit_error = lerr,
          average_n_bits = bits,
          key_average_n_bits = kbits,
          value_average_n_bits = vbits,
          average_size = sz,
          key_average_size = ksz,
          value_average_size = vsz\<rparr>)))))))))))))))"

text \<open>\<^verbatim>\<open>evaluate\<close> (line 128). The progress bar and \<^verbatim>\<open>torch.no_grad()\<close> do not change
  any value.\<close>

definition evaluate :: "'p evaluator \<Rightarrow> 'p world \<Rightarrow> py_error + (EvaluationResult \<times> 'p world)" where
  "evaluate ev w =
     bind_err (evaluate_loop ev 0 (questions ev) EvaluationResult_default 0 w)
       (\<lambda>(result, total_tokens, w').
     bind_err (finalize result (length (questions ev)) total_tokens) (\<lambda>r. Inr (r, w')))"

section \<open>The result cache\<close>

text \<open>
  \<^verbatim>\<open>cached_evaluate\<close> (line 166). \<^verbatim>\<open>os.path.exists\<close> is membership in the files of
  the world; \<^verbatim>\<open>json.load\<close> raises on text that is not JSON; a record read back from
  JSON is the record that was written.
\<close>

definition cached_evaluate ::
  "'p evaluator \<Rightarrow> string option \<Rightarrow> 'p world \<Rightarrow> py_error + (EvaluationResult \<times> 'p world)" where
  "cached_evaluate ev cache_file w =
     (let miss = (\<lambda>cached_results.
            bind_err (evaluate ev w) (\<lambda>(result, w').
            let cached_results' =
                  cached_results @ [\<lparr>entry_params = params ev, entry_results = result\<rparr>]
            in Inr (result,
                    (case cache_file of
                       None \<Rightarrow> w'
                     | Some f \<Rightarrow> w'\<lparr>files := (files w')(f \<mapsto> Records cached_results')\<rparr>))))
      in case (case cache_file of None \<Rightarrow> None | Some f \<Rightarrow> files w f) of
           None \<Rightarrow> miss []
         | Some NotJson \<Rightarrow> Inl JSONDecodeError
         | Some (Records cached_results) \<Rightarrow>
             (case find (\<lambda>entry. entry_params entry = params ev) cached_results of
                Some entry \<Rightarrow> Inr (entry_results entry, w)
              | None \<Rightarrow> miss cached_results))"

section \<open>Reference definitions for the properties\<close>

text \<open>
  The loop of lines 92 to 101 on the list of the choices' scores, without the indexing
  that computes a score: the state after the choices from index \<open>choice_idx\<close> on.
\<close>

fun scan_scores ::
  "int \<Rightarrow> nat \<Rightarrow> real list \<Rightarrow> real option \<times> nat option \<times> real option
     \<Rightarrow> real option \<times> nat option \<times> real option" where
  "scan_scores ans choice_idx [] st = st"
| "scan_scores ans choice_idx (lp # rest) (mx, mx_idx, alp) =
     (let alp' = (if int choice_idx = ans then Some lp else alp) in
      if (case mx of None \<Rightarrow> True | Some m \<Rightarrow> lp > m)
      then scan_scores ans (Suc choice_idx) rest (Some lp, Some choice_idx, alp')
      else scan_scores ans (Suc choice_idx) rest (mx, mx_idx, alp'))"

text \<open>
  The score of choice \<open>c\<close> of length \<open>L\<close> in the spec's words: the log-softmax of the
  unquantized pass at the last prefix position, read at the first continuation token,
  plus the log-softmax of the quantized pass at each position \<open>j < L - 1\<close>, read at
  continuation token \<open>j + 1\<close>, divided by \<open>L\<close>.
\<close>

definition choice_score ::
  "tensor3 \<Rightarrow> tensor3 \<Rightarrow> nat list list \<Rightarrow> nat \<Rightarrow> nat \<Rightarrow> nat \<Rightarrow> real" where
  "choice_score ulogits qlogits ids question_len c L =
     (log_softmax (ulogits ! c ! (question_len - 1)) ! (ids ! c ! question_len)
      + (\<Sum>j\<leftarrow>[0..<L - 1].
           log_softmax (qlogits ! c ! j) ! (ids ! c ! (question_len + 1 + j))))
     / real L"

text \<open>
  A choice whose tokens and logits are all there: the choice has at least one token, its
  row of token ids holds the prefix and the whole continuation, and every token it
  reads is a vocabulary index of the logits it is read from.
\<close>

definition choice_in_range ::
  "tensor3 \<Rightarrow> tensor3 \<Rightarrow> nat list list \<Rightarrow> nat \<Rightarrow> nat \<Rightarrow> nat \<Rightarrow> bool" where
  "choice_in_range ulogits qlogits ids question_len c L \<longleftrightarrow>
     0 < L \<and> c < length ids \<and> c < length ulogits \<and> c < length qlogits
     \<and> question_len + L \<le> length (ids ! c)
     \<and> ids ! c ! question_len < length (ulogits ! c ! (question_len - 1))
     \<and> L - 1 \<le> length (qlogits ! c)
     \<and> list_all (\<lambda>j. ids ! c ! (question_len + 1 + j) < length (qlogits ! c ! j))
         [0..<L - 1]"

text \<open>
  Lines 74 to 76: the attention weights of the first pass cut to the prefix, and its key
  and value caches cut to the prefix and stacked over the layers. They are what the two
  quantizers are given; the zipped results are the \<^verbatim>\<open>past_key_values\<close> of the second
  pass (lines 77 to 79 and 88).
\<close>

definition prefix_attentions :: "nat \<Rightarrow> model_output \<Rightarrow> tensor4 list" where
  "prefix_attentions question_len result =
     map (map (map (\<lambda>m. map (take question_len) (take question_len m)))) (attentions result)"

definition prefix_key_cache :: "nat \<Rightarrow> model_output \<Rightarrow> py_error + tensor5" where
  "prefix_key_cache question_len result =
     torch_stack (map (\<lambda>(key, _). map (map (take question_len)) key) (past_key_values result))"

definition prefix_value_cache :: "nat \<Rightarrow> model_output \<Rightarrow> py_error + tensor5" where
  "prefix_value_cache question_len result =
     torch_stack (map (\<lambda>(_, val). map (map (take question_len)) val) (past_key_values result))"

text \<open>The per-question results of a corpus, in order: what \<^verbatim>\<open>evaluate\<close> gets from
  its calls of \<^verbatim>\<open>_evaluate_single\<close>.\<close>

fun single_results ::
  "'p evaluator \<Rightarrow> nat \<Rightarrow> question list \<Rightarrow> 'p world
     \<Rightarrow> py_error + (EvaluationResult list \<times> 'p world)" where
  "single_results ev idx [] w = Inr ([], w)"
| "single_results ev idx (q # rest) w =
     (case evaluate_single ev idx q w of
        Inl e \<Rightarrow> Inl e
      | Inr (s, w') \<Rightarrow>
          (case single_results ev (Suc idx) rest w' of
             Inl e \<Rightarrow> Inl e
           | Inr (ss, w'') \<Rightarrow> Inr (s # ss, w'')))"

text \<open>The unweighted mean of a list of floats, and the mean weighted by token counts.\<close>

definition fl_mean :: "pyfloat list \<Rightarrow> pyfloat" where
  "fl_mean xs = fl_scale (\<lambda>a. a / real (length xs)) (py_sum xs)"

definition fl_weighted_mean :: "pyfloat list \<Rightarrow> nat list \<Rightarrow> pyfloat" where
  "fl_weighted_mean xs ns =
     fl_scale (\<lambda>a. a / real (sum_list ns))
       (py_sum (map (\<lambda>(x, n). fl_scale (\<lambda>a. a * real n) x) (zip xs ns)))"

section \<open>A small evaluator to run\<close>

text \<open>
  A model with one layer, one head, an embedding of size 1 and a vocabulary of two
  tokens whose logits, attention weights and cache entries are all 0; a quantizer that
  adds 1 to every cache entry and reports 4 bits; and a question with a prefix of one
  token and two choices of one token each.
\<close>

definition toy_past_length :: "(tensor4 \<times> tensor4) list option \<Rightarrow> nat" where
  "toy_past_length past =
     (case past of None \<Rightarrow> 0 | Some kv \<Rightarrow>
        (case kv of [] \<Rightarrow> 0 | (k, _) # _ \<Rightarrow>
           (case k of [] \<Rightarrow> 0 | heads # _ \<Rightarrow>
              (case heads of [] \<Rightarrow> 0 | pos # _ \<Rightarrow> length pos))))"

definition toy_forward ::
  "nat list list \<Rightarrow> (tensor4 \<times> tensor4) list option \<Rightarrow> py_error + model_output" where
  "toy_forward ids past =
     (let p = toy_past_length past in
      Inr \<lparr>logits = map (map (\<lambda>_. [0, 0])) ids,
           attentions = [map (\<lambda>row. [map (\<lambda>_. replicate (p + length row) 0) row]) ids],
           past_key_values =
             [(map (\<lambda>row. [replicate (p + length row) [0]]) ids,
               map (\<lambda>row. [replicate (p + length row) [0]]) ids)]\<rparr>)"

definition toy_model :: llama_model where
  "toy_model = \<lparr>name_or_path = ''toy'', forward = toy_forward\<rparr>"

definition toy_quantizer :: "nat quantizer" where
  "toy_quantizer =
     \<lparr>level = ''token'', quantizer_params = 4,
      quantize = (\<lambda>cache _. Inr (map (map (map (map (map (\<lambda>x. x + 1))))) cache, Fl 4)),
      calc_quantized_cache_size_per_token = (\<lambda>bits _. Inr (fl_scale (\<lambda>b. b / 8) bits))\<rparr>"

definition toy_question :: "int \<Rightarrow> question" where
  "toy_question a =
     \<lparr>input_ids = [[0, 0], [0, 1]], question_length = 1, choice_length = [1, 1],
      answer_idx = a\<rparr>"

definition toy_evaluator :: "question list \<Rightarrow> nat evaluator" where
  "toy_evaluator qs =
     \<lparr>version = ''1'', model = toy_model, questions = qs, key_quantizer = toy_quantizer,
      value_quantizer = toy_quantizer, enable_draw_cache_insights = False\<rparr>"

definition world0 :: "nat world" where
  "world0 = \<lparr>files = Map.empty, forward_calls = 0\<rparr>"

text \<open>
  A model like the small one, except that the logit of token 0 is, at every position,
  the first entry of the key cache it is given (0 without one): with the small quantizer
  the second pass sees 1 where the first pass sees 0. And a question with a prefix of one
  token and two choices of two tokens each.
\<close>

definition cache_forward ::
  "nat list list \<Rightarrow> (tensor4 \<times> tensor4) list option \<Rightarrow> py_error + model_output" where
  "cache_forward ids past =
     (let p = toy_past_length past;
          c = (case past of None \<Rightarrow> 0 | Some kv \<Rightarrow>
                 (case concat (concat (concat (concat (map fst kv)))) of [] \<Rightarrow> 0 | x # _ \<Rightarrow> x))
      in Inr \<lparr>logits = map (map (\<lambda>_. [c, 0])) ids,
              attentions = [map (\<lambda>row. [map (\<lambda>_. replicate (p + length row) 0) row]) ids],
              past_key_values =
                [(map (\<lambda>row. [replicate (p + length row) [0]]) ids,
                  map (\<lambda>row. [replicate (p + length row) [0]]) ids)]\<rparr>)"

definition cache_model :: llama_model where
  "cache_model = \<lparr>name_or_path = ''cache'', forward = cache_forward\<rparr>"

definition cache_evaluator :: "nat evaluator" where
  "cache_evaluator =
     \<lparr>version = ''1'', model = cache_model, questions = [], key_quantizer = toy_quantizer,
      value_quantizer = toy_quantizer, enable_draw_cache_insights = False\<rparr>"

definition two_token_question :: question where
  "two_token_question =
     \<lparr>input_ids = [[0, 0, 0], [0, 1, 1]], question_length = 1, choice_length = [2, 2],
      answer_idx = 0\<rparr>"

text \<open>
  A second quantizer, which leaves the cache as it is and reports 16 bits for a prefix of
  10 tokens and 48 bits for any other, at one byte per 8 bits; a question with a prefix
  of \<open>n\<close> tokens and one choice of one token; and a cache file that already holds three
  records, the second and the third with the fingerprint of the small evaluator on one
  question.
\<close>

definition sized_quantizer :: "nat quantizer" where
  "sized_quantizer =
     \<lparr>level = ''token'', quantizer_params = 0,
      quantize = (\<lambda>cache _. Inr (cache,
         Fl (if length (concat (concat (concat cache))) = 10 then 16 else 48))),
      calc_quantized_cache_size_per_token = (\<lambda>bits _. Inr (fl_scale (\<lambda>b. b / 8) bits))\<rparr>"

definition prefix_question :: "nat \<Rightarrow> question" where
  "prefix_question n =
     \<lparr>input_ids = [replicate (Suc n) 0], question_length = n, choice_length = [1],
      answer_idx = 0\<rparr>"

definition sized_evaluator :: "question list \<Rightarrow> nat evaluator" where
  "sized_evaluator qs =
     \<lparr>version = ''1'', model = toy_model, questions = qs, key_quantizer = sized_quantizer,
      value_quantizer = sized_quantizer, enable_draw_cache_insights = False\<rparr>"

definition cached_world :: "nat world" where
  "cached_world =
     \<lparr>files = [''results.json'' \<mapsto> Records
         [\<lparr>entry_params = params (toy_evaluator []), entry_results = EvaluationResult_default\<rparr>,
          \<lparr>entry_params = params (toy_evaluator [toy_question 0]),
           entry_results = EvaluationResult_default\<lparr>accuracy := Fl 1\<rparr>\<rparr>,
          \<lparr>entry_params = params (toy_evaluator [toy_question 0]),
           entry_results = EvaluationResult_default\<rparr>]],
      forward_calls = 0\<rparr>"

lemmas toy_defs = toy_past_length_def toy_forward_def toy_model_def toy_quantizer_def
  toy_question_def toy_evaluator_def world0_def

lemmas cache_defs = cache_forward_def cache_model_def cache_evaluator_def two_token_question_def

lemmas sized_defs = sized_quantizer_def prefix_question_def sized_evaluator_def

lemmas run_defs = calc_attention_error_def calc_tensor_error_def sub5_def sub4_def sub3_def
  sub2_def sub1_def sub0_def broadcast_dim_def flat3_def flat4_def flat5_def tensor_mean_def
  py_truediv_def py_sum_def fl_add_def fl_sub_def fl_mul_def py_index_def broadcast_index_def
  log_softmax_def shape4_def torch_stack_def call_forward_def first_word_log_softmax_def
  quantized_log_softmax_def choice_log_probability_def draw_cache_insights_def
  evaluate_single_def accumulate_def div_field_def finalize_def evaluate_def
  EvaluationResult_default_def cached_evaluate_def params_def

section \<open>Attention error\<close>

lemma map_err_Inr:
  "length ys = length xs \<Longrightarrow> (\<And>i. i < length xs \<Longrightarrow> f (xs ! i) = Inr (ys ! i))
     \<Longrightarrow> map_err f xs = Inr ys"
proof (induction xs arbitrary: ys)
  case Nil
  then show ?case by simp
next
  case (Cons x xs)
  then obtain y ys' where ys: "ys = y # ys'"
    by (cases ys) auto
  have hd: "f x = Inr y"
    using Cons.prems(2) [of 0] ys by simp
  have tl: "map_err f xs = Inr ys'"
  proof (rule Cons.IH)
    show "length ys' = length xs"
      using Cons.prems(1) ys by simp
    fix i
    assume "i < length xs"
    then show "f (xs ! i) = Inr (ys' ! i)"
      using Cons.prems(2) [of "Suc i"] ys by simp
  qed
  show ?case
    by (simp add: hd tl ys)
qed

text \<open>
  C1, as the spec states it: attention sequences of different lengths make
  \<^verbatim>\<open>_calc_attention_error\<close> fail. The code does not: with two tensors on the left and
  one on the right, \<^verbatim>\<open>zip\<close> pairs only the first tensors, whose error is
  \<open>(1 - 3)\<^sup>2 = 4\<close>, and the sum is divided by the length of the left sequence, 2.
\<close>

theorem calc_attention_error_length_mismatch_counterexample:
  "length [[[[[1]]]], [[[[2::real]]]]] \<noteq> length [[[[[3::real]]]]]
   \<and> calc_attention_error [[[[[1]]]], [[[[2]]]]] [[[[[3]]]]] = Inr (Fl 2)"
  by (simp add: run_defs)

text \<open>
  C1, amended: whatever the two lengths are, \<^verbatim>\<open>_calc_attention_error\<close> pairs the
  tensors position by position up to the shorter length and, when each pair has a tensor
  error and the first sequence is not empty, returns the sum of these errors divided by
  the length of the first sequence; an empty first sequence raises ZeroDivisionError.
  No error reports a length mismatch.
\<close>

theorem calc_attention_error_truncates:
  assumes "length es = min (length attention1) (length attention2)"
    and "\<And>i. i < length es \<Longrightarrow>
           calc_tensor_error sub4 flat4 (attention1 ! i) (attention2 ! i) = Inr (es ! i)"
  shows "calc_attention_error attention1 attention2 =
           (if attention1 = [] then Inl ZeroDivisionError
            else Inr (fl_scale (\<lambda>a. a / real (length attention1)) (py_sum es)))"
proof -
  have "map_err (\<lambda>(attn1, attn2). calc_tensor_error sub4 flat4 attn1 attn2)
          (zip attention1 attention2) = Inr es"
    using assms by (intro map_err_Inr) auto
  then show ?thesis
    by (simp add: calc_attention_error_def py_truediv_def)
qed

theorem calc_attention_error_truncates_witness:
  "calc_attention_error [[[[[1]]]], [[[[2]]]]] [[[[[3]]]]]
     = Inr (fl_scale (\<lambda>a. a / real (length [[[[[1::real]]]], [[[[2]]]]])) (py_sum [Fl 4]))"
proof -
  have "calc_attention_error [[[[[1]]]], [[[[2]]]]] [[[[[3]]]]] =
          (if [[[[[1::real]]]], [[[[2]]]]] = [] then Inl ZeroDivisionError
           else Inr (fl_scale (\<lambda>a. a / real (length [[[[[1::real]]]], [[[[2]]]]]))
                  (py_sum [Fl 4])))"
    by (rule calc_attention_error_truncates) (simp_all add: run_defs)
  then show ?thesis by simp
qed

section \<open>Construction and diagnostics\<close>

text \<open>
  C9: with diagnostics enabled and a key or value quantizer whose level is not
  \<open>token\<close>, the construction of the evaluator fails with AssertionError, so that no
  evaluator exists to run a forward pass; and \<^verbatim>\<open>draw_cache_insights\<close> asserts the
  same on every call, before it reads a cache.
\<close>

theorem diagnostics_precondition:
  "(level kq \<noteq> ''token'' \<or> level vq \<noteq> ''token''
      \<longrightarrow> Evaluator_init ver mdl qs kq vq True = Inl AssertionError)
   \<and> (level (key_quantizer ev) \<noteq> ''token'' \<or> level (value_quantizer ev) \<noteq> ''token''
      \<longrightarrow> draw_cache_insights ev caches = Inl AssertionError)"
  by (auto simp: Evaluator_init_def draw_cache_insights_def)

theorem diagnostics_precondition_witness:
  "Evaluator_init ''1'' toy_model [] toy_quantizer (toy_quantizer\<lparr>level := ''channel''\<rparr>) True
     = Inl AssertionError
   \<and> draw_cache_insights
       ((toy_evaluator []) \<lparr>key_quantizer := toy_quantizer\<lparr>level := ''channel''\<rparr>\<rparr>) []
     = Inl AssertionError"
  using diagnostics_precondition [where kq = toy_quantizer
      and vq = "toy_quantizer\<lparr>level := ''channel''\<rparr>"
      and ev = "(toy_evaluator []) \<lparr>key_quantizer := toy_quantizer\<lparr>level := ''channel''\<rparr>\<rparr>"
      and ver = "''1''" and mdl = toy_model and qs = "[]" and caches = "[]"]
  by (simp add: toy_defs)

section \<open>An empty corpus\<close>

text \<open>
  C10: with no questions, \<^verbatim>\<open>evaluate\<close> raises ZeroDivisionError at its first
  division, \<^verbatim>\<open>result.accuracy /= len(self.questions)\<close>, and returns no result.
\<close>

theorem evaluate_empty_raises:
  "questions ev = [] \<Longrightarrow> evaluate ev w = Inl ZeroDivisionError"
  by (simp add: evaluate_def finalize_def py_truediv_def)

theorem evaluate_empty_raises_witness:
  "questions (toy_evaluator []) = [] \<and> evaluate (toy_evaluator []) world0 = Inl ZeroDivisionError"
  using evaluate_empty_raises [of "toy_evaluator []" world0]
  by (simp add: toy_evaluator_def)

section \<open>Scoring: helper lemmas\<close>

lemma bind_err_Inr_iff: "bind_err r f = Inr y \<longleftrightarrow> (\<exists>x. r = Inr x \<and> f x = Inr y)"
  by (cases r) auto

lemma py_index_nat: "i < length xs \<Longrightarrow> py_index xs (int i) = Inr (xs ! i)"
  by (simp add: py_index_def)

lemma py_index_InrD: "py_index xs (int i) = Inr v \<Longrightarrow> i < length xs \<and> v = xs ! i"
  by (auto simp: py_index_def Let_def split: if_splits)

lemma map_err_InrD:
  "map_err f xs = Inr ys \<Longrightarrow> length ys = length xs \<and> (\<forall>i<length xs. f (xs ! i) = Inr (ys ! i))"
proof (induction xs arbitrary: ys)
  case Nil
  then show ?case by simp
next
  case (Cons x xs)
  from Cons.prems obtain y ys' where y: "f x = Inr y" and ys': "map_err f xs = Inr ys'"
    and ys: "ys = y # ys'"
    by (auto simp: bind_err_Inr_iff)
  from Cons.IH [OF ys'] have len: "length ys' = length xs"
    and nth: "\<And>i. i < length xs \<Longrightarrow> f (xs ! i) = Inr (ys' ! i)"
    by auto
  show ?case
    using y len nth by (auto simp: ys nth_Cons split: nat.splits)
qed

lemma first_word_log_softmax_InrD:
  assumes "first_word_log_softmax ulogits question_len = Inr fw" and "0 < question_len"
    and "c < length ulogits"
  shows "c < length fw \<and> fw ! c = log_softmax (ulogits ! c ! (question_len - 1))"
proof -
  from assms(1) obtain sel where sel: "map_err (\<lambda>row. py_index row (int question_len - 1)) ulogits = Inr sel"
    and fw: "fw = map log_softmax sel"
    by (auto simp: first_word_log_softmax_def bind_err_Inr_iff)
  from map_err_InrD [OF sel] assms(3) have len: "length sel = length ulogits"
    and "py_index (ulogits ! c) (int question_len - 1) = Inr (sel ! c)"
    by auto
  moreover have "int question_len - 1 = int (question_len - 1)"
    using assms(2) by simp
  ultimately have "sel ! c = ulogits ! c ! (question_len - 1)"
    using py_index_InrD by metis
  then show ?thesis
    using len assms(3) by (simp add: fw)
qed

lemma choice_log_probability_in_range:
  assumes rng: "choice_in_range ulogits qlogits ids question_len c L"
    and fw: "c < length fw" "fw ! c = log_softmax (ulogits ! c ! (question_len - 1))"
  shows "choice_log_probability fw (quantized_log_softmax qlogits) ids question_len c L
           = Inr (choice_score ulogits qlogits ids question_len c L)"
proof -
  define row where "row = ids ! c"
  define toks where "toks = take (L - 1) (drop (question_len + 1) row)"
  define rest where
    "rest = map (\<lambda>j. log_softmax (qlogits ! c ! j) ! (row ! (question_len + 1 + j))) [0..<L - 1]"
  define qrows where "qrows = map log_softmax (qlogits ! c)"
  from rng have L: "0 < L" and c: "c < length ids" "c < length qlogits"
    and row: "question_len + L \<le> length row"
    and tok: "row ! question_len < length (ulogits ! c ! (question_len - 1))"
    and qlen: "L - 1 \<le> length (qlogits ! c)"
    and toks: "\<And>j. j < L - 1 \<Longrightarrow> row ! (question_len + 1 + j) < length (qlogits ! c ! j)"
    by (auto simp: choice_in_range_def list_all_iff row_def)
  have i1: "py_index ids (int c) = Inr row"
    using c by (simp add: py_index_nat row_def)
  have i2: "py_index row (int question_len) = Inr (row ! question_len)"
    using row L by (simp add: py_index_nat)
  have i3: "py_index fw (int c) = Inr (fw ! c)"
    using fw by (simp add: py_index_nat)
  have i4: "py_index (fw ! c) (int (row ! question_len))
              = Inr (log_softmax (ulogits ! c ! (question_len - 1)) ! (row ! question_len))"
    using tok fw by (simp add: py_index_nat log_softmax_def)
  have i5: "py_index (quantized_log_softmax qlogits) (int c) = Inr qrows"
    using c by (simp add: py_index_nat quantized_log_softmax_def qrows_def)
  have len: "length toks = L - 1"
    using row L by (auto simp: toks_def min_def)
  have nth: "toks ! i = row ! (question_len + 1 + i)" if "i < L - 1" for i
    using that row by (simp add: toks_def)
  have i6: "broadcast_index [0..<L - 1] toks = Inr (zip [0..<L - 1] toks)"
    by (simp add: broadcast_index_def len)
  have i7: "map_err (\<lambda>(j, k). bind_err (py_index qrows (int j)) (\<lambda>v. py_index v (int k)))
              (zip [0..<L - 1] toks) = Inr rest"
  proof (rule map_err_Inr)
    show "length rest = length (zip [0..<L - 1] toks)"
      by (simp add: len rest_def)
    fix i
    assume "i < length (zip [0..<L - 1] toks)"
    then have i: "i < L - 1"
      by (simp add: len)
    have z: "zip [0..<L - 1] toks ! i = (i, row ! (question_len + 1 + i))"
      using i len nth by simp
    have a: "py_index qrows (int i) = Inr (log_softmax (qlogits ! c ! i))"
      using i qlen by (simp add: py_index_nat qrows_def)
    have b: "py_index (log_softmax (qlogits ! c ! i)) (int (row ! (question_len + 1 + i)))
        = Inr (log_softmax (qlogits ! c ! i) ! (row ! (question_len + 1 + i)))"
      using toks [OF i] by (simp add: py_index_nat log_softmax_def)
    have r: "rest ! i = log_softmax (qlogits ! c ! i) ! (row ! (question_len + 1 + i))"
      using i by (simp add: rest_def)
    show "(case zip [0..<L - 1] toks ! i of
        (j, k) \<Rightarrow> bind_err (py_index qrows (int j)) (\<lambda>v. py_index v (int k)))
        = Inr (rest ! i)"
      unfolding z r using a b by simp
  qed
  have "choice_log_probability fw (quantized_log_softmax qlogits) ids question_len c L
          = Inr ((log_softmax (ulogits ! c ! (question_len - 1)) ! (row ! question_len)
                  + sum_list rest) / real L)"
    unfolding choice_log_probability_def
    using L i6 [unfolded toks_def] i7 [unfolded toks_def] by (simp add: i1 i2 i3 i4 i5)
  then show ?thesis
    by (simp add: choice_score_def rest_def row_def)
qed

lemma score_choices_scan:
  "length ss = length Ls \<Longrightarrow>
   (\<And>c. c < length Ls \<Longrightarrow>
      choice_log_probability fw qls ids question_len (k + c) (Ls ! c) = Inr (ss ! c)) \<Longrightarrow>
   score_choices fw qls ids question_len ans k Ls st = Inr (scan_scores ans k ss st)"
proof (induction Ls arbitrary: k ss st)
  case Nil
  then show ?case by simp
next
  case (Cons L Ls)
  then obtain lp ss' where ss: "ss = lp # ss'"
    by (cases ss) auto
  obtain mx mx_idx alp where st: "st = (mx, mx_idx, alp)"
    by (cases st) auto
  have hd: "choice_log_probability fw qls ids question_len k L = Inr lp"
    using Cons.prems(2) [of 0] ss by simp
  have tl: "score_choices fw qls ids question_len ans (Suc k) Ls st'
              = Inr (scan_scores ans (Suc k) ss' st')" for st'
  proof (rule Cons.IH)
    show "length ss' = length Ls"
      using Cons.prems(1) ss by simp
    fix c
    assume "c < length Ls"
    then show "choice_log_probability fw qls ids question_len (Suc k + c) (Ls ! c) = Inr (ss' ! c)"
      using Cons.prems(2) [of "Suc c"] ss by simp
  qed
  show ?case
    by (simp add: st ss hd tl Let_def)
qed

lemma score_choices_InrD:
  "score_choices fw qls ids question_len ans k Ls st = Inr st' \<Longrightarrow>
   \<exists>ss. length ss = length Ls
     \<and> (\<forall>c<length Ls. choice_log_probability fw qls ids question_len (k + c) (Ls ! c)
            = Inr (ss ! c))
     \<and> st' = scan_scores ans k ss st"
proof (induction Ls arbitrary: k st)
  case Nil
  then show ?case by simp
next
  case (Cons L Ls)
  obtain mx mx_idx alp where st: "st = (mx, mx_idx, alp)"
    by (cases st) auto
  from Cons.prems obtain lp where hd: "choice_log_probability fw qls ids question_len k L = Inr lp"
    by (auto simp: st split: sum.splits)
  define st1 where "st1 =
    (let alp' = (if int k = ans then Some lp else alp) in
     if (case mx of None \<Rightarrow> True | Some m \<Rightarrow> lp > m) then (Some lp, Some k, alp')
     else (mx, mx_idx, alp'))"
  have step: "score_choices fw qls ids question_len ans k (L # Ls) st
                = score_choices fw qls ids question_len ans (Suc k) Ls st1"
    by (simp add: st hd st1_def Let_def)
  have scan: "scan_scores ans k (lp # ss) st = scan_scores ans (Suc k) ss st1" for ss
    by (simp add: st st1_def Let_def)
  from Cons.prems step have "score_choices fw qls ids question_len ans (Suc k) Ls st1 = Inr st'"
    by simp
  from Cons.IH [OF this] obtain ss where len: "length ss = length Ls"
    and nth: "\<And>c. c < length Ls \<Longrightarrow>
        choice_log_probability fw qls ids question_len (Suc k + c) (Ls ! c) = Inr (ss ! c)"
    and res: "st' = scan_scores ans (Suc k) ss st1"
    by auto
  have "\<forall>c<length (L # Ls).
          choice_log_probability fw qls ids question_len (k + c) ((L # Ls) ! c)
            = Inr ((lp # ss) ! c)"
    using hd nth by (auto simp: nth_Cons split: nat.splits)
  then show ?case
    using len res scan by (intro exI [of _ "lp # ss"]) simp
qed

lemma scan_scores_alp:
  "snd (snd (scan_scores ans k ss (mx, mx_idx, alp))) =
     (if int k \<le> ans \<and> ans < int k + int (length ss) then Some (ss ! nat (ans - int k))
      else alp)"
proof (induction ss arbitrary: k mx mx_idx alp)
  case Nil
  then show ?case by auto
next
  case (Cons lp ss)
  show ?case
  proof (cases "int k = ans")
    case True
    then show ?thesis
      by (simp add: Cons.IH Let_def)
  next
    case False
    have "nat (ans - int k) = Suc (nat (ans - int (Suc k)))" if "int k < ans"
      using that by simp
    then show ?thesis
      using False by (auto simp: Cons.IH Let_def)
  qed
qed

lemma scan_scores_idx:
  "fst (snd (scan_scores ans k ss (mx, mx_idx, alp))) = mx_idx
   \<or> (\<exists>i. fst (snd (scan_scores ans k ss (mx, mx_idx, alp))) = Some i \<and> k \<le> i
          \<and> i < k + length ss)"
proof (induction ss arbitrary: k mx mx_idx alp)
  case Nil
  then show ?case by simp
next
  case (Cons lp ss)
  define alp' where "alp' = (if int k = ans then Some lp else alp)"
  show ?case
  proof (cases "case mx of None \<Rightarrow> True | Some m \<Rightarrow> lp > m")
    case True
    then have eq: "scan_scores ans k (lp # ss) (mx, mx_idx, alp)
        = scan_scores ans (Suc k) ss (Some lp, Some k, alp')"
      by (simp add: alp'_def Let_def)
    from Cons.IH [of "Suc k" "Some lp" "Some k" alp'] show ?thesis
      unfolding eq by auto
  next
    case False
    then have eq: "scan_scores ans k (lp # ss) (mx, mx_idx, alp)
        = scan_scores ans (Suc k) ss (mx, mx_idx, alp')"
      by (simp add: alp'_def Let_def)
    from Cons.IH [of "Suc k" mx mx_idx alp'] show ?thesis
      unfolding eq by auto
  qed
qed

text \<open>From a running maximum on.\<close>

lemma scan_scores_max_Some:
  "\<exists>alp'. (\<forall>x\<in>set ss. x \<le> m) \<and> scan_scores ans k ss (Some m, Some i0, alp) = (Some m, Some i0, alp')
     \<or> (\<exists>i<length ss. scan_scores ans k ss (Some m, Some i0, alp) = (Some (ss ! i), Some (k + i), alp')
           \<and> m < ss ! i \<and> (\<forall>j<length ss. ss ! j \<le> ss ! i) \<and> (\<forall>j<i. ss ! j < ss ! i))"
proof (induction ss arbitrary: k m i0 alp)
  case Nil
  then show ?case by simp
next
  case (Cons lp ss)
  define a where "a = (if int k = ans then Some lp else alp)"
  show ?case
  proof (cases "lp > m")
    case True
    then have eq: "scan_scores ans k (lp # ss) (Some m, Some i0, alp)
        = scan_scores ans (Suc k) ss (Some lp, Some k, a)"
      by (simp add: a_def Let_def)
    from Cons.IH [where k = "Suc k" and m = lp and ?i0.0 = k and alp = a] obtain alp' where
      "(\<forall>x\<in>set ss. x \<le> lp) \<and> scan_scores ans (Suc k) ss (Some lp, Some k, a) = (Some lp, Some k, alp')
       \<or> (\<exists>i<length ss. scan_scores ans (Suc k) ss (Some lp, Some k, a)
               = (Some (ss ! i), Some (Suc k + i), alp')
             \<and> lp < ss ! i \<and> (\<forall>j<length ss. ss ! j \<le> ss ! i) \<and> (\<forall>j<i. ss ! j < ss ! i))"
      by blast
    then show ?thesis
    proof
      assume h: "(\<forall>x\<in>set ss. x \<le> lp)
        \<and> scan_scores ans (Suc k) ss (Some lp, Some k, a) = (Some lp, Some k, alp')"
      have "\<forall>j<length (lp # ss). (lp # ss) ! j \<le> (lp # ss) ! 0"
        using h by (auto simp: nth_Cons split: nat.splits)
      then show ?thesis
        using h True eq by (intro exI [of _ alp'] disjI2 exI [of _ 0]) simp
    next
      assume "\<exists>i<length ss. scan_scores ans (Suc k) ss (Some lp, Some k, a)
               = (Some (ss ! i), Some (Suc k + i), alp')
             \<and> lp < ss ! i \<and> (\<forall>j<length ss. ss ! j \<le> ss ! i) \<and> (\<forall>j<i. ss ! j < ss ! i)"
      then obtain i where i: "i < length ss"
        and r: "scan_scores ans (Suc k) ss (Some lp, Some k, a) = (Some (ss ! i), Some (Suc k + i), alp')"
        and gt: "lp < ss ! i" and ub: "\<forall>j<length ss. ss ! j \<le> ss ! i"
        and first: "\<forall>j<i. ss ! j < ss ! i"
        by blast
      have "\<forall>j<length (lp # ss). (lp # ss) ! j \<le> (lp # ss) ! Suc i"
        using ub gt by (auto simp: nth_Cons split: nat.splits)
      moreover have "\<forall>j<Suc i. (lp # ss) ! j < (lp # ss) ! Suc i"
        using first gt by (auto simp: nth_Cons split: nat.splits)
      ultimately show ?thesis
        using i r gt True eq by (intro exI [of _ alp'] disjI2 exI [of _ "Suc i"]) simp
    qed
  next
    case False
    then have eq: "scan_scores ans k (lp # ss) (Some m, Some i0, alp)
        = scan_scores ans (Suc k) ss (Some m, Some i0, a)"
      by (simp add: a_def Let_def)
    from Cons.IH [where k = "Suc k" and m = m and ?i0.0 = i0 and alp = a] obtain alp' where
      "(\<forall>x\<in>set ss. x \<le> m) \<and> scan_scores ans (Suc k) ss (Some m, Some i0, a) = (Some m, Some i0, alp')
       \<or> (\<exists>i<length ss. scan_scores ans (Suc k) ss (Some m, Some i0, a)
               = (Some (ss ! i), Some (Suc k + i), alp')
             \<and> m < ss ! i \<and> (\<forall>j<length ss. ss ! j \<le> ss ! i) \<and> (\<forall>j<i. ss ! j < ss ! i))"
      by blast
    then show ?thesis
    proof
      assume "(\<forall>x\<in>set ss. x \<le> m)
        \<and> scan_scores ans (Suc k) ss (Some m, Some i0, a) = (Some m, Some i0, alp')"
      then show ?thesis
        using False eq by (intro exI [of _ alp'] disjI1) simp
    next
      assume "\<exists>i<length ss. scan_scores ans (Suc k) ss (Some m, Some i0, a)
               = (Some (ss ! i), Some (Suc k + i), alp')
             \<and> m < ss ! i \<and> (\<forall>j<length ss. ss ! j \<le> ss ! i) \<and> (\<forall>j<i. ss ! j < ss ! i)"
      then obtain i where i: "i < length ss"
        and r: "scan_scores ans (Suc k) ss (Some m, Some i0, a) = (Some (ss ! i), Some (Suc k + i), alp')"
        and gt: "m < ss ! i" and ub: "\<forall>j<length ss. ss ! j \<le> ss ! i"
        and first: "\<forall>j<i. ss ! j < ss ! i"
        by blast
      have "\<forall>j<length (lp # ss). (lp # ss) ! j \<le> (lp # ss) ! Suc i"
        using ub gt False by (auto simp: nth_Cons split: nat.splits)
      moreover have "\<forall>j<Suc i. (lp # ss) ! j < (lp # ss) ! Suc i"
        using first gt False by (auto simp: nth_Cons split: nat.splits)
      ultimately show ?thesis
        using i r gt eq by (intro exI [of _ alp'] disjI2 exI [of _ "Suc i"]) simp
    qed
  qed
qed

lemma scan_scores_first_max:
  assumes "ss \<noteq> []"
  shows "\<exists>i alp'. i < length ss
     \<and> scan_scores ans 0 ss (None, None, None) = (Some (ss ! i), Some i, alp')
     \<and> (\<forall>j<length ss. ss ! j \<le> ss ! i) \<and> (\<forall>j<i. ss ! j < ss ! i)"
proof -
  from assms obtain lp rest where ss: "ss = lp # rest"
    by (cases ss) auto
  define a where "a = (if (0::int) = ans then Some lp else None)"
  have eq: "scan_scores ans 0 ss (None, None, None) = scan_scores ans (Suc 0) rest (Some lp, Some 0, a)"
    by (simp add: ss a_def)
  from scan_scores_max_Some [of rest lp ans "Suc 0" 0 a] obtain alp' where
    "(\<forall>x\<in>set rest. x \<le> lp) \<and> scan_scores ans (Suc 0) rest (Some lp, Some 0, a) = (Some lp, Some 0, alp')
     \<or> (\<exists>i<length rest. scan_scores ans (Suc 0) rest (Some lp, Some 0, a)
             = (Some (rest ! i), Some (Suc 0 + i), alp')
           \<and> lp < rest ! i \<and> (\<forall>j<length rest. rest ! j \<le> rest ! i) \<and> (\<forall>j<i. rest ! j < rest ! i))"
    by blast
  then show ?thesis
  proof
    assume h: "(\<forall>x\<in>set rest. x \<le> lp)
      \<and> scan_scores ans (Suc 0) rest (Some lp, Some 0, a) = (Some lp, Some 0, alp')"
    have "\<forall>j<length ss. ss ! j \<le> ss ! 0"
      using h by (auto simp: ss nth_Cons split: nat.splits)
    then show ?thesis
      using h eq by (intro exI [of _ 0] exI [of _ alp']) (simp add: ss)
  next
    assume "\<exists>i<length rest. scan_scores ans (Suc 0) rest (Some lp, Some 0, a)
             = (Some (rest ! i), Some (Suc 0 + i), alp')
           \<and> lp < rest ! i \<and> (\<forall>j<length rest. rest ! j \<le> rest ! i) \<and> (\<forall>j<i. rest ! j < rest ! i)"
    then obtain i where i: "i < length rest"
      and r: "scan_scores ans (Suc 0) rest (Some lp, Some 0, a) = (Some (rest ! i), Some (Suc 0 + i), alp')"
      and gt: "lp < rest ! i" and ub: "\<forall>j<length rest. rest ! j \<le> rest ! i"
      and first: "\<forall>j<i. rest ! j < rest ! i"
      by blast
    have "\<forall>j<length ss. ss ! j \<le> ss ! Suc i"
      using ub gt by (auto simp: ss nth_Cons split: nat.splits)
    moreover have "\<forall>j<Suc i. ss ! j < ss ! Suc i"
      using first gt by (auto simp: ss nth_Cons split: nat.splits)
    ultimately show ?thesis
      using i r eq by (intro exI [of _ "Suc i"] exI [of _ alp']) (simp add: ss)
  qed
qed

lemma evaluate_single_InrD:
  assumes "evaluate_single ev idx q w = Inr (r, w')"
  shows "\<exists>result kv qresult fw mx mx_idx alp.
     forward (model ev) (input_ids q) None = Inr result
     \<and> forward (model ev) (map (drop (question_length q)) (input_ids q)) (Some kv) = Inr qresult
     \<and> first_word_log_softmax (logits result) (question_length q) = Inr fw
     \<and> score_choices fw (quantized_log_softmax (logits qresult)) (input_ids q)
         (question_length q) (answer_idx q) 0 (choice_length q) (None, None, None)
         = Inr (mx, mx_idx, alp)
     \<and> accuracy r = (if (case mx_idx of None \<Rightarrow> False | Some i \<Rightarrow> int i = answer_idx q)
                      then Fl 1 else Fl 0)
     \<and> answer_log_probability r = map_option Fl alp
     \<and> w' = w\<lparr>forward_calls := Suc (Suc (forward_calls w))\<rparr>"
  using assms unfolding evaluate_single_def call_forward_def Let_def
  by (fastforce simp: bind_err_Inr_iff)

lemma evaluate_single_passes:
  assumes "evaluate_single ev idx q w = Inr (r, w')"
  shows "\<exists>result key_cache value_cache quantized_key_cache key_n_bits quantized_value_cache
          value_n_bits qresult fw mx mx_idx alp.
     forward (model ev) (input_ids q) None = Inr result
     \<and> prefix_key_cache (question_length q) result = Inr key_cache
     \<and> prefix_value_cache (question_length q) result = Inr value_cache
     \<and> quantize (key_quantizer ev) key_cache (prefix_attentions (question_length q) result)
         = Inr (quantized_key_cache, key_n_bits)
     \<and> quantize (value_quantizer ev) value_cache (prefix_attentions (question_length q) result)
         = Inr (quantized_value_cache, value_n_bits)
     \<and> forward (model ev) (map (drop (question_length q)) (input_ids q))
         (Some (zip quantized_key_cache quantized_value_cache)) = Inr qresult
     \<and> first_word_log_softmax (logits result) (question_length q) = Inr fw
     \<and> score_choices fw (quantized_log_softmax (logits qresult)) (input_ids q)
         (question_length q) (answer_idx q) 0 (choice_length q) (None, None, None)
         = Inr (mx, mx_idx, alp)
     \<and> answer_log_probability r = map_option Fl alp"
  using assms
  unfolding evaluate_single_def call_forward_def Let_def prefix_attentions_def
    prefix_key_cache_def prefix_value_cache_def
  by (fastforce simp: bind_err_Inr_iff)

section \<open>The score of a choice\<close>

text \<open>
  C2: when \<^verbatim>\<open>_evaluate_single\<close> returns for a question with a non-empty prefix, its
  second forward pass ran on the continuation tokens with the cache that the two
  quantizers returned for the prefix caches of the first pass, and the score that lines
  94 to 96 compute for every choice \<open>c\<close> whose tokens and logits are all there is
  \<open>choice_score\<close>: the log-softmax of the unquantized pass at the last prefix position,
  read at the first continuation token, plus the log-softmax of that quantized pass at
  every remaining continuation position, divided by the length of the choice; and the
  result's \<open>answer_log_probability\<close> is this score of the choice at \<open>answer_idx\<close>.
\<close>

theorem evaluate_single_scores:
  assumes "evaluate_single ev idx q w = Inr (r, w')" and "0 < question_length q"
  shows "\<exists>result key_cache value_cache quantized_key_cache key_n_bits quantized_value_cache
          value_n_bits qresult fw.
     forward (model ev) (input_ids q) None = Inr result
     \<and> prefix_key_cache (question_length q) result = Inr key_cache
     \<and> prefix_value_cache (question_length q) result = Inr value_cache
     \<and> quantize (key_quantizer ev) key_cache (prefix_attentions (question_length q) result)
         = Inr (quantized_key_cache, key_n_bits)
     \<and> quantize (value_quantizer ev) value_cache (prefix_attentions (question_length q) result)
         = Inr (quantized_value_cache, value_n_bits)
     \<and> forward (model ev) (map (drop (question_length q)) (input_ids q))
         (Some (zip quantized_key_cache quantized_value_cache)) = Inr qresult
     \<and> first_word_log_softmax (logits result) (question_length q) = Inr fw
     \<and> (\<forall>c<length (choice_length q).
           choice_in_range (logits result) (logits qresult) (input_ids q) (question_length q) c
             (choice_length q ! c) \<longrightarrow>
           choice_log_probability fw (quantized_log_softmax (logits qresult)) (input_ids q)
             (question_length q) c (choice_length q ! c)
           = Inr (choice_score (logits result) (logits qresult) (input_ids q)
                    (question_length q) c (choice_length q ! c)))
     \<and> (0 \<le> answer_idx q \<and> answer_idx q < int (length (choice_length q))
          \<and> choice_in_range (logits result) (logits qresult) (input_ids q) (question_length q)
              (nat (answer_idx q)) (choice_length q ! nat (answer_idx q)) \<longrightarrow>
         answer_log_probability r
           = Some (Fl (choice_score (logits result) (logits qresult) (input_ids q)
                         (question_length q) (nat (answer_idx q))
                         (choice_length q ! nat (answer_idx q)))))"
proof -
  from evaluate_single_passes [OF assms(1)] obtain result key_cache value_cache
    quantized_key_cache key_n_bits quantized_value_cache value_n_bits qresult fw mx mx_idx alp
    where f1: "forward (model ev) (input_ids q) None = Inr result"
    and kc: "prefix_key_cache (question_length q) result = Inr key_cache"
    and vc: "prefix_value_cache (question_length q) result = Inr value_cache"
    and qk: "quantize (key_quantizer ev) key_cache (prefix_attentions (question_length q) result)
               = Inr (quantized_key_cache, key_n_bits)"
    and qv: "quantize (value_quantizer ev) value_cache
               (prefix_attentions (question_length q) result)
               = Inr (quantized_value_cache, value_n_bits)"
    and f2: "forward (model ev) (map (drop (question_length q)) (input_ids q))
               (Some (zip quantized_key_cache quantized_value_cache)) = Inr qresult"
    and fw: "first_word_log_softmax (logits result) (question_length q) = Inr fw"
    and sc: "score_choices fw (quantized_log_softmax (logits qresult)) (input_ids q)
               (question_length q) (answer_idx q) 0 (choice_length q) (None, None, None)
             = Inr (mx, mx_idx, alp)"
    and alp: "answer_log_probability r = map_option Fl alp"
    by (elim exE conjE)
  let ?score = "\<lambda>c. choice_score (logits result) (logits qresult) (input_ids q)
                    (question_length q) c (choice_length q ! c)"
  have each: "choice_log_probability fw (quantized_log_softmax (logits qresult)) (input_ids q)
                (question_length q) c (choice_length q ! c) = Inr (?score c)"
    if "choice_in_range (logits result) (logits qresult) (input_ids q) (question_length q) c
          (choice_length q ! c)" for c
  proof -
    from that have "c < length (logits result)"
      by (simp add: choice_in_range_def)
    from first_word_log_softmax_InrD [OF fw assms(2) this] that show ?thesis
      by (intro choice_log_probability_in_range) auto
  qed
  from score_choices_InrD [OF sc] obtain ss where
    len: "length ss = length (choice_length q)"
    and nth: "\<And>c. c < length (choice_length q) \<Longrightarrow>
        choice_log_probability fw (quantized_log_softmax (logits qresult)) (input_ids q)
          (question_length q) c (choice_length q ! c) = Inr (ss ! c)"
    and st: "(mx, mx_idx, alp) = scan_scores (answer_idx q) 0 ss (None, None, None)"
    by auto
  have ans: "answer_log_probability r = Some (Fl (?score (nat (answer_idx q))))"
    if a: "0 \<le> answer_idx q" "answer_idx q < int (length (choice_length q))"
      and rng: "choice_in_range (logits result) (logits qresult) (input_ids q)
                 (question_length q) (nat (answer_idx q)) (choice_length q ! nat (answer_idx q))"
  proof -
    have "alp = snd (snd (scan_scores (answer_idx q) 0 ss (None, None, None)))"
      using st by (metis snd_conv)
    then have "alp = Some (ss ! nat (answer_idx q))"
      using a len by (simp add: scan_scores_alp)
    moreover have "nat (answer_idx q) < length (choice_length q)"
      using a by simp
    from nth [OF this] each [OF rng] have "ss ! nat (answer_idx q) = ?score (nat (answer_idx q))"
      by simp
    ultimately show ?thesis
      by (simp add: alp)
  qed
  show ?thesis
    using f1 kc vc qk qv f2 fw each ans by blast
qed

theorem evaluate_single_scores_witness:
  "0 < question_length two_token_question
   \<and> evaluate_single cache_evaluator 0 two_token_question world0
     = Inr (\<lparr>accuracy = Fl 1, accuracy_confidence = Fl 0,
              answer_log_probability = Some (Fl ((1 - ln (exp 1 + 1) - ln 2) / 2)),
              quantization_error = Fl 1, key_quantization_error = Fl 1,
              value_quantization_error = Fl 1, attention_error = Fl 0,
              logit_error = Fl (1 / 2), average_n_bits = Fl 4,
              key_average_n_bits = Fl 4, value_average_n_bits = Fl 4,
              average_size = Fl (1 / 2), key_average_size = Fl (1 / 2),
              value_average_size = Fl (1 / 2)\<rparr>,
            \<lparr>files = Map.empty, forward_calls = 2\<rparr>)
   \<and> choice_in_range [[[0, 0], [0, 0], [0, 0]], [[0, 0], [0, 0], [0, 0]]]
        [[[1, 0], [1, 0]], [[1, 0], [1, 0]]] [[0, 0, 0], [0, 1, 1]] 1 0 2
   \<and> Some (Fl ((1 - ln (exp 1 + 1) - ln 2) / 2))
       = Some (Fl (choice_score [[[0, 0], [0, 0], [0, 0]], [[0, 0], [0, 0], [0, 0]]]
                     [[[1, 0], [1, 0]], [[1, 0], [1, 0]]] [[0, 0, 0], [0, 1, 1]] 1 0 2))"
proof -
  define r where "r = \<lparr>accuracy = Fl 1, accuracy_confidence = Fl 0,
              answer_log_probability = Some (Fl ((1 - ln (exp 1 + 1) - ln 2) / 2)),
              quantization_error = Fl 1, key_quantization_error = Fl 1,
              value_quantization_error = Fl 1, attention_error = Fl 0,
              logit_error = Fl (1 / 2), average_n_bits = Fl 4,
              key_average_n_bits = Fl 4, value_average_n_bits = Fl 4,
              average_size = Fl (1 / 2), key_average_size = Fl (1 / 2),
              value_average_size = Fl (1 / 2)\<rparr>"
  have run: "evaluate_single cache_evaluator 0 two_token_question world0
               = Inr (r, \<lparr>files = Map.empty, forward_calls = 2\<rparr>)"
    unfolding r_def by (simp add: run_defs toy_defs cache_defs)
  have pos: "0 < question_length two_token_question"
    by (simp add: two_token_question_def)
  have rng: "choice_in_range [[[0, 0], [0, 0], [0, 0]], [[0, 0], [0, 0], [0, 0]]]
        [[[1, 0], [1, 0]], [[1, 0], [1, 0]]] [[0, 0, 0], [0, 1, 1]] 1 0 2"
    by (simp add: choice_in_range_def)
  from evaluate_single_scores [OF run pos] obtain result key_cache value_cache
    quantized_key_cache key_n_bits quantized_value_cache value_n_bits qresult
    where f1: "forward (model cache_evaluator) (input_ids two_token_question) None = Inr result"
    and kc: "prefix_key_cache (question_length two_token_question) result = Inr key_cache"
    and vc: "prefix_value_cache (question_length two_token_question) result = Inr value_cache"
    and qk: "quantize (key_quantizer cache_evaluator) key_cache
               (prefix_attentions (question_length two_token_question) result)
               = Inr (quantized_key_cache, key_n_bits)"
    and qv: "quantize (value_quantizer cache_evaluator) value_cache
               (prefix_attentions (question_length two_token_question) result)
               = Inr (quantized_value_cache, value_n_bits)"
    and f2: "forward (model cache_evaluator)
               (map (drop (question_length two_token_question)) (input_ids two_token_question))
               (Some (zip quantized_key_cache quantized_value_cache)) = Inr qresult"
    and ans: "0 \<le> answer_idx two_token_question
        \<and> answer_idx two_token_question < int (length (choice_length two_token_question))
        \<and> choice_in_range (logits result) (logits qresult) (input_ids two_token_question)
            (question_length two_token_question) (nat (answer_idx two_token_question))
            (choice_length two_token_question ! nat (answer_idx two_token_question))
        \<longrightarrow> answer_log_probability r
          = Some (Fl (choice_score (logits result) (logits qresult)
                        (input_ids two_token_question) (question_length two_token_question)
                        (nat (answer_idx two_token_question))
                        (choice_length two_token_question
                           ! nat (answer_idx two_token_question))))"
    by (elim exE conjE)
  have res: "result = \<lparr>logits = [[[0, 0], [0, 0], [0, 0]], [[0, 0], [0, 0], [0, 0]]],
       attentions = [[[[[0, 0, 0], [0, 0, 0], [0, 0, 0]]], [[[0, 0, 0], [0, 0, 0], [0, 0, 0]]]]],
       past_key_values = [([[[[0], [0], [0]]], [[[0], [0], [0]]]],
                           [[[[0], [0], [0]]], [[[0], [0], [0]]]])]\<rparr>"
    using f1 by (auto simp: cache_defs toy_defs Let_def)
  have key: "key_cache = [[[[[0]]], [[[0]]]]]"
    using kc by (auto simp: res prefix_key_cache_def two_token_question_def run_defs)
  have val: "value_cache = [[[[[0]]], [[[0]]]]]"
    using vc by (auto simp: res prefix_value_cache_def two_token_question_def run_defs)
  have qkey: "quantized_key_cache = [[[[[1]]], [[[1]]]]]"
    using qk by (auto simp: key cache_defs toy_defs)
  have qval: "quantized_value_cache = [[[[[1]]], [[[1]]]]]"
    using qv by (auto simp: val cache_defs toy_defs)
  have l2: "logits qresult = [[[1, 0], [1, 0]], [[1, 0], [1, 0]]]"
    using f2 by (auto simp: qkey qval cache_defs toy_defs Let_def)
  have l1: "logits result = [[[0, 0], [0, 0], [0, 0]], [[0, 0], [0, 0], [0, 0]]]"
    by (simp add: res)
  from ans rng have "answer_log_probability r
       = Some (Fl (choice_score [[[0, 0], [0, 0], [0, 0]], [[0, 0], [0, 0], [0, 0]]]
                     [[[1, 0], [1, 0]], [[1, 0], [1, 0]]] [[0, 0, 0], [0, 1, 1]] 1 0 2))"
    by (simp add: l1 l2 two_token_question_def)
  then have "Some (Fl ((1 - ln (exp 1 + 1) - ln 2) / 2))
       = Some (Fl (choice_score [[[0, 0], [0, 0], [0, 0]], [[0, 0], [0, 0], [0, 0]]]
                     [[[1, 0], [1, 0]], [[1, 0], [1, 0]]] [[0, 0, 0], [0, 1, 1]] 1 0 2))"
    by (simp add: r_def)
  with run pos rng show ?thesis
    unfolding r_def by simp
qed

section \<open>The predicted choice\<close>

text \<open>
  C6: when \<^verbatim>\<open>_evaluate_single\<close> returns for a question with at least one choice, the
  predicted choice \<open>i\<close> (\<^verbatim>\<open>max_choice_idx\<close> after the loop) has a score that no
  choice exceeds and that every choice before \<open>i\<close> is strictly below: among choices tied
  at the maximum it is the one with the lowest index. The accuracy is 1.0 exactly when
  this \<open>i\<close> is \<open>answer_idx\<close>.
\<close>

theorem evaluate_single_first_maximum:
  assumes "evaluate_single ev idx q w = Inr (r, w')" and "choice_length q \<noteq> []"
  shows "\<exists>result kv qresult fw ss i.
     forward (model ev) (input_ids q) None = Inr result
     \<and> forward (model ev) (map (drop (question_length q)) (input_ids q)) (Some kv) = Inr qresult
     \<and> first_word_log_softmax (logits result) (question_length q) = Inr fw
     \<and> length ss = length (choice_length q)
     \<and> (\<forall>c<length (choice_length q).
           choice_log_probability fw (quantized_log_softmax (logits qresult)) (input_ids q)
             (question_length q) c (choice_length q ! c) = Inr (ss ! c))
     \<and> i < length ss \<and> (\<forall>j<length ss. ss ! j \<le> ss ! i) \<and> (\<forall>j<i. ss ! j < ss ! i)
     \<and> (\<exists>alp. score_choices fw (quantized_log_softmax (logits qresult)) (input_ids q)
           (question_length q) (answer_idx q) 0 (choice_length q) (None, None, None)
           = Inr (Some (ss ! i), Some i, alp))
     \<and> accuracy r = (if int i = answer_idx q then Fl 1 else Fl 0)"
proof -
  from evaluate_single_InrD [OF assms(1)] obtain result kv qresult fw mx mx_idx alp where
    f1: "forward (model ev) (input_ids q) None = Inr result"
    and f2: "forward (model ev) (map (drop (question_length q)) (input_ids q)) (Some kv)
               = Inr qresult"
    and fw: "first_word_log_softmax (logits result) (question_length q) = Inr fw"
    and sc: "score_choices fw (quantized_log_softmax (logits qresult)) (input_ids q)
               (question_length q) (answer_idx q) 0 (choice_length q) (None, None, None)
             = Inr (mx, mx_idx, alp)"
    and acc: "accuracy r = (if (case mx_idx of None \<Rightarrow> False | Some i \<Rightarrow> int i = answer_idx q)
                            then Fl 1 else Fl 0)"
    by blast
  from score_choices_InrD [OF sc] obtain ss where
    len: "length ss = length (choice_length q)"
    and nth: "\<forall>c<length (choice_length q).
        choice_log_probability fw (quantized_log_softmax (logits qresult)) (input_ids q)
          (question_length q) c (choice_length q ! c) = Inr (ss ! c)"
    and st: "(mx, mx_idx, alp) = scan_scores (answer_idx q) 0 ss (None, None, None)"
    by auto
  have "ss \<noteq> []"
    using len assms(2) by auto
  from scan_scores_first_max [OF this, of "answer_idx q"] obtain i alp' where
    i: "i < length ss"
    and r: "scan_scores (answer_idx q) 0 ss (None, None, None) = (Some (ss ! i), Some i, alp')"
    and ub: "\<forall>j<length ss. ss ! j \<le> ss ! i" and first: "\<forall>j<i. ss ! j < ss ! i"
    by blast
  from st r have mx: "mx = Some (ss ! i)" "mx_idx = Some i"
    by simp_all
  have "accuracy r = (if int i = answer_idx q then Fl 1 else Fl 0)"
    using acc mx by simp
  moreover have "\<exists>alp. score_choices fw (quantized_log_softmax (logits qresult)) (input_ids q)
           (question_length q) (answer_idx q) 0 (choice_length q) (None, None, None)
           = Inr (Some (ss ! i), Some i, alp)"
    using sc mx by simp
  ultimately show ?thesis
    using f1 f2 fw len nth i ub first by blast
qed

theorem evaluate_single_first_maximum_witness:
  "choice_length (toy_question 1) \<noteq> []
   \<and> (\<exists>r w'. evaluate_single (toy_evaluator []) 0 (toy_question 1) world0 = Inr (r, w')
        \<and> (\<exists>ss i. ss = [- ln 2, - ln 2] \<and> i = 0
              \<and> accuracy r = (if int i = answer_idx (toy_question 1) then Fl 1 else Fl 0)))"
proof -
  obtain r w' where run: "evaluate_single (toy_evaluator []) 0 (toy_question 1) world0 = Inr (r, w')"
    by (simp add: run_defs toy_defs)
  have ne: "choice_length (toy_question 1) \<noteq> []"
    by (simp add: toy_question_def)
  from evaluate_single_first_maximum [OF run ne] obtain result kv qresult fw ss i where
    f1: "forward (model (toy_evaluator [])) (input_ids (toy_question 1)) None = Inr result"
    and f2: "forward (model (toy_evaluator []))
               (map (drop (question_length (toy_question 1))) (input_ids (toy_question 1)))
               (Some kv) = Inr qresult"
    and fw: "first_word_log_softmax (logits result) (question_length (toy_question 1)) = Inr fw"
    and len: "length ss = length (choice_length (toy_question 1))"
    and nth: "\<forall>c<length (choice_length (toy_question 1)).
           choice_log_probability fw (quantized_log_softmax (logits qresult))
             (input_ids (toy_question 1)) (question_length (toy_question 1)) c
             (choice_length (toy_question 1) ! c) = Inr (ss ! c)"
    and i: "i < length ss" and first: "\<forall>j<i. ss ! j < ss ! i"
    and acc: "accuracy r = (if int i = answer_idx (toy_question 1) then Fl 1 else Fl 0)"
    by blast
  have l1: "logits result = [[[0, 0], [0, 0]], [[0, 0], [0, 0]]]"
    using f1 by (auto simp: toy_defs)
  have l2: "logits qresult = [[[0, 0]], [[0, 0]]]"
    using f2 by (auto simp: toy_defs Let_def)
  have fw': "fw = [[- ln 2, - ln 2], [- ln 2, - ln 2]]"
    using fw by (auto simp: l1 toy_question_def run_defs)
  have s0: "ss ! 0 = - ln 2"
    using nth [rule_format, of 0] by (simp add: fw' l2 toy_question_def run_defs)
  have s1: "ss ! 1 = - ln 2"
    using nth [rule_format, of 1] by (simp add: fw' l2 toy_question_def run_defs)
  have len2: "length ss = 2"
    using len by (simp add: toy_question_def)
  then obtain a b where ab: "ss = [a, b]"
    by (cases ss; cases "tl ss") auto
  have ss: "ss = [- ln 2, - ln 2]"
    using s0 s1 by (simp add: ab)
  have "i = 0"
  proof (rule ccontr)
    assume "i \<noteq> 0"
    with i len2 have "i = 1"
      by simp
    with first have "ss ! 0 < ss ! 1"
      by simp
    then show False
      using s0 s1 by simp
  qed
  with ss acc run ne show ?thesis
    by blast
qed

section \<open>A question with no valid answer index\<close>

lemma evaluate_single_invalid:
  assumes bad: "\<not> (0 \<le> answer_idx q \<and> answer_idx q < int (length (choice_length q)))"
    and run: "evaluate_single ev idx q w = Inr (r, w')"
  shows "accuracy r = Fl 0 \<and> answer_log_probability r = None"
proof -
  from evaluate_single_InrD [OF run] obtain fw qls mx mx_idx alp where
    sc: "score_choices fw qls (input_ids q) (question_length q) (answer_idx q) 0
           (choice_length q) (None, None, None) = Inr (mx, mx_idx, alp)"
    and acc: "accuracy r = (if (case mx_idx of None \<Rightarrow> False | Some i \<Rightarrow> int i = answer_idx q)
                            then Fl 1 else Fl 0)"
    and alp: "answer_log_probability r = map_option Fl alp"
    by blast
  from score_choices_InrD [OF sc] obtain ss where
    len: "length ss = length (choice_length q)"
    and st: "(mx, mx_idx, alp) = scan_scores (answer_idx q) 0 ss (None, None, None)"
    by auto
  have "alp = snd (snd (scan_scores (answer_idx q) 0 ss (None, None, None)))"
    using st by (metis snd_conv)
  then have a: "alp = None"
    using bad len by (simp add: scan_scores_alp)
  have "mx_idx = fst (snd (scan_scores (answer_idx q) 0 ss (None, None, None)))"
    using st by (metis fst_conv snd_conv)
  with scan_scores_idx [of "answer_idx q" 0 ss None None None]
  have "mx_idx = None \<or> (\<exists>i. mx_idx = Some i \<and> i < length ss)"
    by auto
  then have "\<not> (case mx_idx of None \<Rightarrow> False | Some i \<Rightarrow> int i = answer_idx q)"
    using bad len by auto
  then show ?thesis
    using acc alp a by simp
qed

lemma evaluate_loop_invalid:
  assumes bad: "\<not> (0 \<le> answer_idx q \<and> answer_idx q < int (length (choice_length q)))"
  shows "q \<in> set qs \<Longrightarrow> \<exists>e. evaluate_loop ev idx qs result total_tokens w = Inl e"
proof (induction qs arbitrary: idx result total_tokens w)
  case Nil
  then show ?case by simp
next
  case (Cons q' qs)
  show ?case
  proof (cases "evaluate_single ev idx q' w")
    case (Inl e)
    then show ?thesis by simp
  next
    case (Inr p)
    obtain s w1 where p: "p = (s, w1)"
      by (cases p) auto
    show ?thesis
    proof (cases "q' = q")
      case True
      with Inr p evaluate_single_invalid [OF bad] have "answer_log_probability s = None"
        by blast
      then have "accumulate result s (question_length q') = Inl TypeError"
        by (simp add: accumulate_def split: option.splits)
      then show ?thesis
        using Inr p by simp
    next
      case False
      with Cons.prems have "q \<in> set qs"
        by simp
      from Cons.IH [OF this] show ?thesis
        using Inr p by (auto split: sum.splits)
    qed
  qed
qed

text \<open>
  C8, as the spec states it: a question whose \<open>answer_idx\<close> is not a valid index into
  its choices makes the single-question evaluation fail. The code does not: the question
  below has two choices and \<open>answer_idx = 5\<close>, and \<^verbatim>\<open>_evaluate_single\<close> returns a
  result whose \<open>answer_log_probability\<close> is still \<^verbatim>\<open>None\<close>.
\<close>

theorem evaluate_single_invalid_answer_idx_counterexample:
  "answer_idx (toy_question 5) = 5 \<and> length (choice_length (toy_question 5)) = 2
   \<and> evaluate_single (toy_evaluator []) 0 (toy_question 5) world0
     = Inr (\<lparr>accuracy = Fl 0, accuracy_confidence = Fl 0,
              answer_log_probability = None, quantization_error = Fl 1,
              key_quantization_error = Fl 1, value_quantization_error = Fl 1,
              attention_error = Fl 0, logit_error = Fl 0, average_n_bits = Fl 4,
              key_average_n_bits = Fl 4, value_average_n_bits = Fl 4,
              average_size = Fl (1 / 2), key_average_size = Fl (1 / 2),
              value_average_size = Fl (1 / 2)\<rparr>,
            \<lparr>files = Map.empty, forward_calls = 2\<rparr>)"
  by (simp add: run_defs toy_defs)

text \<open>
  C8, amended: for a question whose \<open>answer_idx\<close> is not the index of one of its
  choices (a question with no choices is one), \<^verbatim>\<open>_evaluate_single\<close> raises no
  data-validity error of its own: whenever it returns, the result has accuracy 0.0 and
  \<open>answer_log_probability\<close> \<^verbatim>\<open>None\<close>. The run is aborted all the same: with such a
  question in the corpus, \<^verbatim>\<open>evaluate\<close> raises (at the latest the TypeError of adding
  \<^verbatim>\<open>None\<close> to the running sum) and returns no aggregate.
\<close>

theorem evaluate_single_invalid_answer_idx:
  assumes "\<not> (0 \<le> answer_idx q \<and> answer_idx q < int (length (choice_length q)))"
  shows "(evaluate_single ev idx q w = Inr (r, w')
            \<longrightarrow> accuracy r = Fl 0 \<and> answer_log_probability r = None)
         \<and> (q \<in> set (questions ev) \<longrightarrow> (\<exists>e. evaluate ev w0 = Inl e))"
proof -
  have "\<exists>e. evaluate ev w0 = Inl e" if "q \<in> set (questions ev)"
  proof -
    from evaluate_loop_invalid [OF assms that] obtain e where
      "evaluate_loop ev 0 (questions ev) EvaluationResult_default 0 w0 = Inl e"
      by blast
    then show ?thesis
      by (simp add: evaluate_def)
  qed
  then show ?thesis
    using evaluate_single_invalid [OF assms] by blast
qed

theorem evaluate_single_invalid_answer_idx_witness:
  "answer_idx (toy_question 5) = 5 \<and> length (choice_length (toy_question 5)) = 2
   \<and> toy_question 5 \<in> set (questions (toy_evaluator [toy_question 5]))
   \<and> (\<exists>r w'. evaluate_single (toy_evaluator [toy_question 5]) 0 (toy_question 5) world0
                = Inr (r, w')
        \<and> accuracy r = Fl 0 \<and> answer_log_probability r = None)
   \<and> (\<exists>e. evaluate (toy_evaluator [toy_question 5]) world0 = Inl e)"
proof -
  have bad: "\<not> (0 \<le> answer_idx (toy_question 5)
               \<and> answer_idx (toy_question 5) < int (length (choice_length (toy_question 5))))"
    by (simp add: toy_question_def)
  have mem: "toy_question 5 \<in> set (questions (toy_evaluator [toy_question 5]))"
    by (simp add: toy_evaluator_def)
  obtain r w' where run:
    "evaluate_single (toy_evaluator [toy_question 5]) 0 (toy_question 5) world0 = Inr (r, w')"
    by (simp add: run_defs toy_defs)
  from evaluate_single_invalid_answer_idx [OF bad, of "toy_evaluator [toy_question 5]" 0 world0
      r w' world0] run mem
  have "accuracy r = Fl 0 \<and> answer_log_probability r = None"
    and "\<exists>e. evaluate (toy_evaluator [toy_question 5]) world0 = Inl e"
    by blast+
  with run mem show ?thesis
    by (auto simp: toy_question_def)
qed

section \<open>Aggregation: helper lemmas\<close>

lemma accumulate_InrD:
  assumes "accumulate result s n = Inr result'"
  shows "\<exists>a b. answer_log_probability result = Some a \<and> answer_log_probability s = Some b
     \<and> answer_log_probability result' = Some (fl_add a b)
     \<and> accuracy result' = fl_add (accuracy result) (accuracy s)
     \<and> quantization_error result' = fl_add (quantization_error result) (quantization_error s)
     \<and> key_quantization_error result'
         = fl_add (key_quantization_error result) (key_quantization_error s)
     \<and> value_quantization_error result'
         = fl_add (value_quantization_error result) (value_quantization_error s)
     \<and> attention_error result' = fl_add (attention_error result) (attention_error s)
     \<and> logit_error result' = fl_add (logit_error result) (logit_error s)
     \<and> average_n_bits result'
         = fl_add (average_n_bits result) (fl_scale (\<lambda>a. a * real n) (average_n_bits s))
     \<and> key_average_n_bits result'
         = fl_add (key_average_n_bits result) (fl_scale (\<lambda>a. a * real n) (key_average_n_bits s))
     \<and> value_average_n_bits result'
         = fl_add (value_average_n_bits result)
             (fl_scale (\<lambda>a. a * real n) (value_average_n_bits s))
     \<and> average_size result'
         = fl_add (average_size result) (fl_scale (\<lambda>a. a * real n) (average_size s))
     \<and> key_average_size result'
         = fl_add (key_average_size result) (fl_scale (\<lambda>a. a * real n) (key_average_size s))
     \<and> value_average_size result'
         = fl_add (value_average_size result) (fl_scale (\<lambda>a. a * real n) (value_average_size s))"
  using assms by (auto simp: accumulate_def split: option.splits)

text \<open>A field summed over the questions, and a field summed with the token counts as
  weights, from a starting value.\<close>

lemma evaluate_loop_InrD:
  "evaluate_loop ev idx qs result total_tokens w = Inr (r, total', w') \<Longrightarrow>
   answer_log_probability result = Some a0 \<Longrightarrow>
   \<exists>ss as. single_results ev idx qs w = Inr (ss, w')
     \<and> length ss = length qs
     \<and> map answer_log_probability ss = map Some as
     \<and> total' = total_tokens + sum_list (map question_length qs)
     \<and> answer_log_probability r = Some (foldl fl_add a0 as)
     \<and> accuracy r = foldl fl_add (accuracy result) (map accuracy ss)
     \<and> quantization_error r
         = foldl fl_add (quantization_error result) (map quantization_error ss)
     \<and> key_quantization_error r
         = foldl fl_add (key_quantization_error result) (map key_quantization_error ss)
     \<and> value_quantization_error r
         = foldl fl_add (value_quantization_error result) (map value_quantization_error ss)
     \<and> attention_error r = foldl fl_add (attention_error result) (map attention_error ss)
     \<and> logit_error r = foldl fl_add (logit_error result) (map logit_error ss)
     \<and> average_n_bits r = foldl fl_add (average_n_bits result)
           (map (\<lambda>(x, n). fl_scale (\<lambda>a. a * real n) x)
              (zip (map average_n_bits ss) (map question_length qs)))
     \<and> key_average_n_bits r = foldl fl_add (key_average_n_bits result)
           (map (\<lambda>(x, n). fl_scale (\<lambda>a. a * real n) x)
              (zip (map key_average_n_bits ss) (map question_length qs)))
     \<and> value_average_n_bits r = foldl fl_add (value_average_n_bits result)
           (map (\<lambda>(x, n). fl_scale (\<lambda>a. a * real n) x)
              (zip (map value_average_n_bits ss) (map question_length qs)))
     \<and> average_size r = foldl fl_add (average_size result)
           (map (\<lambda>(x, n). fl_scale (\<lambda>a. a * real n) x)
              (zip (map average_size ss) (map question_length qs)))
     \<and> key_average_size r = foldl fl_add (key_average_size result)
           (map (\<lambda>(x, n). fl_scale (\<lambda>a. a * real n) x)
              (zip (map key_average_size ss) (map question_length qs)))
     \<and> value_average_size r = foldl fl_add (value_average_size result)
           (map (\<lambda>(x, n). fl_scale (\<lambda>a. a * real n) x)
              (zip (map value_average_size ss) (map question_length qs)))"
proof (induction qs arbitrary: idx result total_tokens w a0)
  case Nil
  then show ?case by simp
next
  case (Cons q qs)
  from Cons.prems(1) obtain s w1 result1 where
    s: "evaluate_single ev idx q w = Inr (s, w1)"
    and acc: "accumulate result s (question_length q) = Inr result1"
    and rest: "evaluate_loop ev (Suc idx) qs result1 (total_tokens + question_length q) w1
                 = Inr (r, total', w')"
    by (auto split: sum.splits)
  from accumulate_InrD [OF acc] Cons.prems(2) obtain b where
    b: "answer_log_probability s = Some b"
    and a1: "answer_log_probability result1 = Some (fl_add a0 b)"
    and f: "accuracy result1 = fl_add (accuracy result) (accuracy s)"
      "quantization_error result1 = fl_add (quantization_error result) (quantization_error s)"
      "key_quantization_error result1
         = fl_add (key_quantization_error result) (key_quantization_error s)"
      "value_quantization_error result1
         = fl_add (value_quantization_error result) (value_quantization_error s)"
      "attention_error result1 = fl_add (attention_error result) (attention_error s)"
      "logit_error result1 = fl_add (logit_error result) (logit_error s)"
      "average_n_bits result1
         = fl_add (average_n_bits result)
             (fl_scale (\<lambda>a. a * real (question_length q)) (average_n_bits s))"
      "key_average_n_bits result1
         = fl_add (key_average_n_bits result)
             (fl_scale (\<lambda>a. a * real (question_length q)) (key_average_n_bits s))"
      "value_average_n_bits result1
         = fl_add (value_average_n_bits result)
             (fl_scale (\<lambda>a. a * real (question_length q)) (value_average_n_bits s))"
      "average_size result1
         = fl_add (average_size result)
             (fl_scale (\<lambda>a. a * real (question_length q)) (average_size s))"
      "key_average_size result1
         = fl_add (key_average_size result)
             (fl_scale (\<lambda>a. a * real (question_length q)) (key_average_size s))"
      "value_average_size result1
         = fl_add (value_average_size result)
             (fl_scale (\<lambda>a. a * real (question_length q)) (value_average_size s))"
    by auto
  from Cons.IH [OF rest a1] obtain ss as where
    ih: "single_results ev (Suc idx) qs w1 = Inr (ss, w')"
      "length ss = length qs"
      "map answer_log_probability ss = map Some as"
      "total' = total_tokens + question_length q + sum_list (map question_length qs)"
      "answer_log_probability r = Some (foldl fl_add (fl_add a0 b) as)"
      "accuracy r = foldl fl_add (accuracy result1) (map accuracy ss)"
      "quantization_error r
         = foldl fl_add (quantization_error result1) (map quantization_error ss)"
      "key_quantization_error r
         = foldl fl_add (key_quantization_error result1) (map key_quantization_error ss)"
      "value_quantization_error r
         = foldl fl_add (value_quantization_error result1) (map value_quantization_error ss)"
      "attention_error r = foldl fl_add (attention_error result1) (map attention_error ss)"
      "logit_error r = foldl fl_add (logit_error result1) (map logit_error ss)"
      "average_n_bits r = foldl fl_add (average_n_bits result1)
           (map (\<lambda>(x, n). fl_scale (\<lambda>a. a * real n) x)
              (zip (map average_n_bits ss) (map question_length qs)))"
      "key_average_n_bits r = foldl fl_add (key_average_n_bits result1)
           (map (\<lambda>(x, n). fl_scale (\<lambda>a. a * real n) x)
              (zip (map key_average_n_bits ss) (map question_length qs)))"
      "value_average_n_bits r = foldl fl_add (value_average_n_bits result1)
           (map (\<lambda>(x, n). fl_scale (\<lambda>a. a * real n) x)
              (zip (map value_average_n_bits ss) (map question_length qs)))"
      "average_size r = foldl fl_add (average_size result1)
           (map (\<lambda>(x, n). fl_scale (\<lambda>a. a * real n) x)
              (zip (map average_size ss) (map question_length qs)))"
      "key_average_size r = foldl fl_add (key_average_size result1)
           (map (\<lambda>(x, n). fl_scale (\<lambda>a. a * real n) x)
              (zip (map key_average_size ss) (map question_length qs)))"
      "value_average_size r = foldl fl_add (value_average_size result1)
           (map (\<lambda>(x, n). fl_scale (\<lambda>a. a * real n) x)
              (zip (map value_average_size ss) (map question_length qs)))"
    by blast
  show ?case
    apply (rule exI [of _ "s # ss"])
    apply (rule exI [of _ "b # as"])
    apply (simp add: s ih b f)
    done
qed

lemma py_truediv_InrD: "py_truediv x n = Inr y \<Longrightarrow> 0 < n \<and> y = fl_scale (\<lambda>a. a / real n) x"
  by (auto simp: py_truediv_def split: if_splits)

lemma finalize_InrD:
  assumes "finalize result n total_tokens = Inr r"
  shows "0 < n \<and> 0 < total_tokens
     \<and> accuracy r = fl_scale (\<lambda>a. a / real n) (accuracy result)
     \<and> (\<exists>root. py_sqrt (fl_scale (\<lambda>a. a / real n)
                    (fl_mul (accuracy r) (fl_sub (Fl 1) (accuracy r)))) = Inr root
           \<and> accuracy_confidence r = fl_mul (Fl 1.96) root)
     \<and> (\<exists>a. answer_log_probability result = Some a
           \<and> answer_log_probability r = Some (fl_scale (\<lambda>a. a / real n) a))
     \<and> quantization_error r = fl_scale (\<lambda>a. a / real n) (quantization_error result)
     \<and> key_quantization_error r = fl_scale (\<lambda>a. a / real n) (key_quantization_error result)
     \<and> value_quantization_error r = fl_scale (\<lambda>a. a / real n) (value_quantization_error result)
     \<and> attention_error r = fl_scale (\<lambda>a. a / real n) (attention_error result)
     \<and> logit_error r = fl_scale (\<lambda>a. a / real n) (logit_error result)
     \<and> average_n_bits r = fl_scale (\<lambda>a. a / real total_tokens) (average_n_bits result)
     \<and> key_average_n_bits r = fl_scale (\<lambda>a. a / real total_tokens) (key_average_n_bits result)
     \<and> value_average_n_bits r
         = fl_scale (\<lambda>a. a / real total_tokens) (value_average_n_bits result)
     \<and> average_size r = fl_scale (\<lambda>a. a / real total_tokens) (average_size result)
     \<and> key_average_size r = fl_scale (\<lambda>a. a / real total_tokens) (key_average_size result)
     \<and> value_average_size r = fl_scale (\<lambda>a. a / real total_tokens) (value_average_size result)"
  using assms unfolding finalize_def div_field_def
  by (auto simp: bind_err_Inr_iff dest!: py_truediv_InrD split: option.splits)

lemma evaluate_InrD:
  assumes "evaluate ev w = Inr (r, w')"
  shows "\<exists>result total_tokens.
     evaluate_loop ev 0 (questions ev) EvaluationResult_default 0 w
       = Inr (result, total_tokens, w')
     \<and> finalize result (length (questions ev)) total_tokens = Inr r"
  using assms by (auto simp: evaluate_def bind_err_Inr_iff)

lemma fl_mean_Fl: "fl_mean (map Fl xs) = Fl (sum_list xs / real (length xs))"
proof -
  have "foldl fl_add (Fl a) (map Fl xs) = Fl (a + sum_list xs)" for a
    by (induction xs arbitrary: a) (simp_all add: fl_add_def add.assoc)
  then show ?thesis
    by (simp add: fl_mean_def py_sum_def)
qed

lemma fl_weighted_mean_Fl:
  "fl_weighted_mean (map Fl xs) ns
     = Fl ((\<Sum>(x, n)\<leftarrow>zip xs ns. x * real n) / real (sum_list ns))"
proof -
  have "foldl fl_add (Fl a) (map (\<lambda>(x, n). fl_scale (\<lambda>a. a * real n) x) (zip (map Fl xs) ns))
          = Fl (a + (\<Sum>(x, n)\<leftarrow>zip xs ns. x * real n))" for a
  proof (induction xs arbitrary: a ns)
    case Nil
    then show ?case by simp
  next
    case (Cons x xs)
    then show ?case
      by (cases ns) (simp_all add: fl_add_def add.assoc)
  qed
  then show ?thesis
    by (simp add: fl_weighted_mean_def py_sum_def)
qed

section \<open>Means over the corpus\<close>

text \<open>
  C3: when \<^verbatim>\<open>evaluate\<close> returns, its result is made of the per-question results
  \<open>ss\<close> as follows: accuracy, answer log-probability, the three quantization errors,
  attention error and logit error are the sums over the questions divided by the number
  of questions; the three bit widths and the three sizes are the sums of the
  per-question values times the question's \<open>question_length\<close>, divided by the sum of
  the question lengths. With prefix lengths 10 and 30 and per-question sizes 2.0 and
  6.0, the corpus size is 5.0.
\<close>

theorem evaluate_means:
  assumes "evaluate ev w = Inr (r, w')"
  shows "\<exists>ss as. single_results ev 0 (questions ev) w = Inr (ss, w')
     \<and> length ss = length (questions ev)
     \<and> map answer_log_probability ss = map Some as
     \<and> accuracy r = fl_mean (map accuracy ss)
     \<and> answer_log_probability r = Some (fl_mean as)
     \<and> quantization_error r = fl_mean (map quantization_error ss)
     \<and> key_quantization_error r = fl_mean (map key_quantization_error ss)
     \<and> value_quantization_error r = fl_mean (map value_quantization_error ss)
     \<and> attention_error r = fl_mean (map attention_error ss)
     \<and> logit_error r = fl_mean (map logit_error ss)
     \<and> average_n_bits r
         = fl_weighted_mean (map average_n_bits ss) (map question_length (questions ev))
     \<and> key_average_n_bits r
         = fl_weighted_mean (map key_average_n_bits ss) (map question_length (questions ev))
     \<and> value_average_n_bits r
         = fl_weighted_mean (map value_average_n_bits ss) (map question_length (questions ev))
     \<and> average_size r
         = fl_weighted_mean (map average_size ss) (map question_length (questions ev))
     \<and> key_average_size r
         = fl_weighted_mean (map key_average_size ss) (map question_length (questions ev))
     \<and> value_average_size r
         = fl_weighted_mean (map value_average_size ss) (map question_length (questions ev))
     \<and> (map average_size ss = [Fl 2, Fl 6] \<and> map question_length (questions ev) = [10, 30]
          \<longrightarrow> average_size r = Fl 5)"
proof -
  from evaluate_InrD [OF assms] obtain result total_tokens where
    loop: "evaluate_loop ev 0 (questions ev) EvaluationResult_default 0 w
             = Inr (result, total_tokens, w')"
    and fin: "finalize result (length (questions ev)) total_tokens = Inr r"
    by blast
  have a0: "answer_log_probability EvaluationResult_default = Some (Fl 0)"
    by (simp add: EvaluationResult_default_def)
  from evaluate_loop_InrD [OF loop a0] obtain ss as where
    ss: "single_results ev 0 (questions ev) w = Inr (ss, w')"
    and len: "length ss = length (questions ev)"
    and as: "map answer_log_probability ss = map Some as"
    and tot: "total_tokens = sum_list (map question_length (questions ev))"
    and sums: "answer_log_probability result = Some (py_sum as)"
      "accuracy result = py_sum (map accuracy ss)"
      "quantization_error result = py_sum (map quantization_error ss)"
      "key_quantization_error result = py_sum (map key_quantization_error ss)"
      "value_quantization_error result = py_sum (map value_quantization_error ss)"
      "attention_error result = py_sum (map attention_error ss)"
      "logit_error result = py_sum (map logit_error ss)"
    and wsums: "average_n_bits result = py_sum
           (map (\<lambda>(x, n). fl_scale (\<lambda>a. a * real n) x)
              (zip (map average_n_bits ss) (map question_length (questions ev))))"
      "key_average_n_bits result = py_sum
           (map (\<lambda>(x, n). fl_scale (\<lambda>a. a * real n) x)
              (zip (map key_average_n_bits ss) (map question_length (questions ev))))"
      "value_average_n_bits result = py_sum
           (map (\<lambda>(x, n). fl_scale (\<lambda>a. a * real n) x)
              (zip (map value_average_n_bits ss) (map question_length (questions ev))))"
      "average_size result = py_sum
           (map (\<lambda>(x, n). fl_scale (\<lambda>a. a * real n) x)
              (zip (map average_size ss) (map question_length (questions ev))))"
      "key_average_size result = py_sum
           (map (\<lambda>(x, n). fl_scale (\<lambda>a. a * real n) x)
              (zip (map key_average_size ss) (map question_length (questions ev))))"
      "value_average_size result = py_sum
           (map (\<lambda>(x, n). fl_scale (\<lambda>a. a * real n) x)
              (zip (map value_average_size ss) (map question_length (questions ev))))"
    unfolding py_sum_def by (auto simp: EvaluationResult_default_def)
  have la: "length as = length (questions ev)"
    using as len by (metis length_map)
  note fin' = finalize_InrD [OF fin]
  have means: "accuracy r = fl_mean (map accuracy ss)"
    "answer_log_probability r = Some (fl_mean as)"
    "quantization_error r = fl_mean (map quantization_error ss)"
    "key_quantization_error r = fl_mean (map key_quantization_error ss)"
    "value_quantization_error r = fl_mean (map value_quantization_error ss)"
    "attention_error r = fl_mean (map attention_error ss)"
    "logit_error r = fl_mean (map logit_error ss)"
    using fin' sums len la by (auto simp: fl_mean_def)
  have wmeans: "average_n_bits r
         = fl_weighted_mean (map average_n_bits ss) (map question_length (questions ev))"
    "key_average_n_bits r
         = fl_weighted_mean (map key_average_n_bits ss) (map question_length (questions ev))"
    "value_average_n_bits r
         = fl_weighted_mean (map value_average_n_bits ss) (map question_length (questions ev))"
    "average_size r
         = fl_weighted_mean (map average_size ss) (map question_length (questions ev))"
    "key_average_size r
         = fl_weighted_mean (map key_average_size ss) (map question_length (questions ev))"
    "value_average_size r
         = fl_weighted_mean (map value_average_size ss) (map question_length (questions ev))"
    using fin' wsums tot by (auto simp: fl_weighted_mean_def)
  have example: "average_size r = Fl 5"
    if "map average_size ss = [Fl 2, Fl 6]" "map question_length (questions ev) = [10, 30]"
  proof -
    have "average_size r = fl_weighted_mean (map Fl [2, 6]) [10, 30]"
      using wmeans(4) that by simp
    then show ?thesis
      by (simp only: fl_weighted_mean_Fl) simp
  qed
  show ?thesis
    using ss len as means wmeans example by blast
qed


theorem evaluate_means_witness:
  "\<exists>r w' ss.
     evaluate (sized_evaluator [prefix_question 10, prefix_question 30]) world0 = Inr (r, w')
     \<and> single_results (sized_evaluator [prefix_question 10, prefix_question 30]) 0
         (questions (sized_evaluator [prefix_question 10, prefix_question 30])) world0
         = Inr (ss, w')
     \<and> map average_size ss = [Fl 2, Fl 6]
     \<and> map question_length (questions (sized_evaluator [prefix_question 10, prefix_question 30]))
         = [10, 30]
     \<and> average_size r = Fl 5
     \<and> accuracy r = fl_mean (map accuracy ss)"
proof -
  define ev where "ev = sized_evaluator [prefix_question 10, prefix_question 30]"
  obtain r w' where run: "evaluate ev world0 = Inr (r, w')"
    unfolding ev_def by (simp add: run_defs toy_defs sized_defs numeral_eq_Suc)
  from evaluate_means [OF run] obtain ss where
    sr: "single_results ev 0 (questions ev) world0 = Inr (ss, w')"
    and acc: "accuracy r = fl_mean (map accuracy ss)"
    and ex: "map average_size ss = [Fl 2, Fl 6]
               \<and> map question_length (questions ev) = [10, 30]
             \<longrightarrow> average_size r = Fl 5"
    by (elim exE conjE)
  have "\<exists>ss0 w0. single_results ev 0 (questions ev) world0 = Inr (ss0, w0)
          \<and> map average_size ss0 = [Fl 2, Fl 6]"
    unfolding ev_def by (simp add: run_defs toy_defs sized_defs numeral_eq_Suc)
  with sr have sizes: "map average_size ss = [Fl 2, Fl 6]"
    by auto
  have lens: "map question_length (questions ev) = [10, 30]"
    by (simp add: sized_defs ev_def)
  from ex sizes lens have five: "average_size r = Fl 5"
    by simp
  have "evaluate ev world0 = Inr (r, w')
     \<and> single_results ev 0 (questions ev) world0 = Inr (ss, w')
     \<and> map average_size ss = [Fl 2, Fl 6]
     \<and> map question_length (questions ev) = [10, 30]
     \<and> average_size r = Fl 5
     \<and> accuracy r = fl_mean (map accuracy ss)"
    using run sr sizes lens five acc by simp
  then show ?thesis
    unfolding ev_def by (intro exI)
qed

section \<open>Accuracy and its confidence interval\<close>

lemma single_results_accuracy:
  "single_results ev idx qs w = Inr (ss, w') \<Longrightarrow>
   list_all (\<lambda>s. accuracy s = Fl 0 \<or> accuracy s = Fl 1) ss"
proof (induction qs arbitrary: idx w ss)
  case Nil
  then show ?case by simp
next
  case (Cons q qs)
  from Cons.prems obtain s w1 ss1 where
    s: "evaluate_single ev idx q w = Inr (s, w1)"
    and rest: "single_results ev (Suc idx) qs w1 = Inr (ss1, w')"
    and ss: "ss = s # ss1"
    by (auto split: sum.splits)
  from evaluate_single_InrD [OF s] have "accuracy s = Fl 0 \<or> accuracy s = Fl 1"
    by auto
  with Cons.IH [OF rest] show ?case
    by (simp add: ss)
qed

lemma sum_accuracy:
  "list_all (\<lambda>s. accuracy s = Fl 0 \<or> accuracy s = Fl 1) ss \<Longrightarrow>
   foldl fl_add (Fl a) (map accuracy ss)
     = Fl (a + real (length (filter (\<lambda>s. accuracy s = Fl 1) ss)))"
  by (induction ss arbitrary: a) (auto simp: fl_add_def)

text \<open>
  C7: when \<^verbatim>\<open>evaluate\<close> returns for a corpus of \<open>N\<close> questions, \<open>N\<close> is at least 1,
  every per-question accuracy is 0.0 or 1.0, and with \<open>k\<close> the number of questions
  answered correctly and \<open>p = k / N\<close>, the accuracy is \<open>p\<close> and the confidence is
  \<open>1.96 * sqrt (p * (1 - p) / N)\<close>, which is 0 when \<open>p\<close> is 0 or 1.
\<close>

theorem evaluate_accuracy_confidence:
  assumes "evaluate ev w = Inr (r, w')"
  shows "\<exists>ss. single_results ev 0 (questions ev) w = Inr (ss, w')
     \<and> length ss = length (questions ev) \<and> 0 < length (questions ev)
     \<and> list_all (\<lambda>s. accuracy s = Fl 0 \<or> accuracy s = Fl 1) ss
     \<and> (let N = real (length (questions ev));
             p = real (length (filter (\<lambda>s. accuracy s = Fl 1) ss)) / N
         in accuracy r = Fl p
            \<and> accuracy_confidence r = Fl (1.96 * sqrt (p * (1 - p) / N))
            \<and> (p = 0 \<or> p = 1 \<longrightarrow> accuracy_confidence r = Fl 0))"
proof -
  from evaluate_InrD [OF assms] obtain result total_tokens where
    loop: "evaluate_loop ev 0 (questions ev) EvaluationResult_default 0 w
             = Inr (result, total_tokens, w')"
    and fin: "finalize result (length (questions ev)) total_tokens = Inr r"
    by blast
  have a0: "answer_log_probability EvaluationResult_default = Some (Fl 0)"
    by (simp add: EvaluationResult_default_def)
  from evaluate_loop_InrD [OF loop a0] obtain ss where
    ss: "single_results ev 0 (questions ev) w = Inr (ss, w')"
    and len: "length ss = length (questions ev)"
    and sum: "accuracy result = foldl fl_add (Fl 0) (map accuracy ss)"
    by (auto simp: EvaluationResult_default_def)
  define N where "N = real (length (questions ev))"
  define p where "p = real (length (filter (\<lambda>s. accuracy s = Fl 1) ss)) / N"
  have bits: "list_all (\<lambda>s. accuracy s = Fl 0 \<or> accuracy s = Fl 1) ss"
    by (rule single_results_accuracy [OF ss])
  from sum_accuracy [OF bits, of 0] sum
  have tot: "accuracy result = Fl (real (length (filter (\<lambda>s. accuracy s = Fl 1) ss)))"
    by simp
  from finalize_InrD [OF fin] obtain root where
    pos: "0 < length (questions ev)"
    and acc: "accuracy r = fl_scale (\<lambda>a. a / real (length (questions ev))) (accuracy result)"
    and root: "py_sqrt (fl_scale (\<lambda>a. a / real (length (questions ev)))
                 (fl_mul (accuracy r) (fl_sub (Fl 1) (accuracy r)))) = Inr root"
    and conf: "accuracy_confidence r = fl_mul (Fl 1.96) root"
    by blast
  have accp: "accuracy r = Fl p"
    using acc tot by (simp add: p_def N_def)
  have "py_sqrt (Fl (p * (1 - p) / N)) = Inr root"
    using root by (simp add: accp fl_mul_def fl_sub_def N_def)
  then have "root = Fl (sqrt (p * (1 - p) / N))"
    by (auto split: if_splits)
  then have confp: "accuracy_confidence r = Fl (1.96 * sqrt (p * (1 - p) / N))"
    using conf by (simp add: fl_mul_def)
  have zero: "accuracy_confidence r = Fl 0" if "p = 0 \<or> p = 1"
    using that confp by auto
  have "accuracy r = Fl p
            \<and> accuracy_confidence r = Fl (1.96 * sqrt (p * (1 - p) / N))
            \<and> (p = 0 \<or> p = 1 \<longrightarrow> accuracy_confidence r = Fl 0)"
    using accp confp zero by blast
  then show ?thesis
    using ss len pos bits unfolding Let_def p_def N_def by blast
qed

theorem evaluate_accuracy_confidence_witness:
  "(\<exists>r w'. evaluate (toy_evaluator [toy_question 0, toy_question 1]) world0 = Inr (r, w')
       \<and> accuracy r = Fl (1 / 2)
       \<and> accuracy_confidence r = Fl (1.96 * sqrt (1 / 2 * (1 - 1 / 2) / 2)))
   \<and> (\<exists>r w'. evaluate (toy_evaluator [toy_question 0]) world0 = Inr (r, w')
       \<and> accuracy r = Fl 1 \<and> accuracy_confidence r = Fl 0)"
proof
  define ev where "ev = toy_evaluator [toy_question 0, toy_question 1]"
  obtain r w' where run: "evaluate ev world0 = Inr (r, w')"
    unfolding ev_def by (simp add: run_defs toy_defs)
  from evaluate_accuracy_confidence [OF run] obtain ss where
    sr: "single_results ev 0 (questions ev) world0 = Inr (ss, w')"
    and res: "let N = real (length (questions ev));
                  p = real (length (filter (\<lambda>s. accuracy s = Fl 1) ss)) / N
              in accuracy r = Fl p
                 \<and> accuracy_confidence r = Fl (1.96 * sqrt (p * (1 - p) / N))
                 \<and> (p = 0 \<or> p = 1 \<longrightarrow> accuracy_confidence r = Fl 0)"
    by (elim exE conjE)
  have "\<exists>ss0 w0. single_results ev 0 (questions ev) world0 = Inr (ss0, w0)
          \<and> length (filter (\<lambda>s. accuracy s = Fl 1) ss0) = 1"
    unfolding ev_def by (simp add: run_defs toy_defs)
  with sr have k: "length (filter (\<lambda>s. accuracy s = Fl 1) ss) = 1"
    by auto
  have n: "length (questions ev) = 2"
    by (simp add: toy_evaluator_def ev_def)
  from res have "accuracy r = Fl (1 / 2)
       \<and> accuracy_confidence r = Fl (1.96 * sqrt (1 / 2 * (1 - 1 / 2) / 2))"
    unfolding Let_def k n by simp
  with run have "evaluate ev world0 = Inr (r, w')
       \<and> accuracy r = Fl (1 / 2)
       \<and> accuracy_confidence r = Fl (1.96 * sqrt (1 / 2 * (1 - 1 / 2) / 2))"
    by simp
  then show "\<exists>r w'. evaluate (toy_evaluator [toy_question 0, toy_question 1]) world0 = Inr (r, w')
       \<and> accuracy r = Fl (1 / 2)
       \<and> accuracy_confidence r = Fl (1.96 * sqrt (1 / 2 * (1 - 1 / 2) / 2))"
    unfolding ev_def by (intro exI)
next
  define ev where "ev = toy_evaluator [toy_question 0]"
  obtain r w' where run: "evaluate ev world0 = Inr (r, w')"
    unfolding ev_def by (simp add: run_defs toy_defs)
  from evaluate_accuracy_confidence [OF run] obtain ss where
    sr: "single_results ev 0 (questions ev) world0 = Inr (ss, w')"
    and res: "let N = real (length (questions ev));
                  p = real (length (filter (\<lambda>s. accuracy s = Fl 1) ss)) / N
              in accuracy r = Fl p
                 \<and> accuracy_confidence r = Fl (1.96 * sqrt (p * (1 - p) / N))
                 \<and> (p = 0 \<or> p = 1 \<longrightarrow> accuracy_confidence r = Fl 0)"
    by (elim exE conjE)
  have "\<exists>ss0 w0. single_results ev 0 (questions ev) world0 = Inr (ss0, w0)
          \<and> length (filter (\<lambda>s. accuracy s = Fl 1) ss0) = 1"
    unfolding ev_def by (simp add: run_defs toy_defs)
  with sr have k: "length (filter (\<lambda>s. accuracy s = Fl 1) ss) = 1"
    by auto
  have n: "length (questions ev) = 1"
    by (simp add: toy_evaluator_def ev_def)
  from res have "accuracy r = Fl 1 \<and> accuracy_confidence r = Fl 0"
    unfolding Let_def k n by simp
  with run have "evaluate ev world0 = Inr (r, w')
       \<and> accuracy r = Fl 1 \<and> accuracy_confidence r = Fl 0"
    by simp
  then show "\<exists>r w'. evaluate (toy_evaluator [toy_question 0]) world0 = Inr (r, w')
       \<and> accuracy r = Fl 1 \<and> accuracy_confidence r = Fl 0"
    unfolding ev_def by (intro exI)
qed

section \<open>The result cache: lookup, miss and round trip\<close>

lemma evaluate_loop_files:
  "evaluate_loop ev idx qs result total_tokens w = Inr (r, total', w') \<Longrightarrow>
   files w' = files w \<and> forward_calls w' = forward_calls w + 2 * length qs"
proof (induction qs arbitrary: idx result total_tokens w)
  case Nil
  then show ?case by simp
next
  case (Cons q qs)
  from Cons.prems obtain s w1 result1 where
    s: "evaluate_single ev idx q w = Inr (s, w1)"
    and rest: "evaluate_loop ev (Suc idx) qs result1 (total_tokens + question_length q) w1
                 = Inr (r, total', w')"
    by (auto split: sum.splits)
  from evaluate_single_InrD [OF s] have "w1 = w\<lparr>forward_calls := Suc (Suc (forward_calls w))\<rparr>"
    by blast
  with Cons.IH [OF rest] show ?case
    by simp
qed

lemma evaluate_files:
  assumes "evaluate ev w = Inr (r, w')"
  shows "files w' = files w \<and> forward_calls w' = forward_calls w + 2 * length (questions ev)"
proof -
  from assms obtain result total_tokens where
    "evaluate_loop ev 0 (questions ev) EvaluationResult_default 0 w
       = Inr (result, total_tokens, w')"
    by (auto simp: evaluate_def bind_err_Inr_iff)
  then show ?thesis
    by (rule evaluate_loop_files)
qed

lemma find_first:
  "i < length xs \<Longrightarrow> P (xs ! i) \<Longrightarrow> (\<forall>j<i. \<not> P (xs ! j)) \<Longrightarrow> find P xs = Some (xs ! i)"
  by (auto simp: find_Some_iff)

lemma find_snoc:
  "find P (xs @ [x]) = (case find P xs of None \<Rightarrow> (if P x then Some x else None) | Some y \<Rightarrow> Some y)"
  by (induction xs) auto

lemma cached_evaluate_hit:
  assumes "files w f = Some (Records entries)"
    and "find (\<lambda>e. entry_params e = params ev) entries = Some e"
  shows "cached_evaluate ev (Some f) w = Inr (entry_results e, w)"
  using assms by (simp add: cached_evaluate_def)

lemma cached_evaluate_miss:
  assumes "files w f = None \<and> entries = []
           \<or> files w f = Some (Records entries)
             \<and> find (\<lambda>e. entry_params e = params ev) entries = None"
    and "evaluate ev w = Inr (r, w')"
  shows "cached_evaluate ev (Some f) w
           = Inr (r, w'\<lparr>files := (files w')(f \<mapsto>
                Records (entries @ [\<lparr>entry_params = params ev, entry_results = r\<rparr>]))\<rparr>)"
  using assms by (auto simp: cached_evaluate_def)

lemma cached_evaluate_InrD:
  assumes "cached_evaluate ev (Some f) w = Inr (r, w1)"
  shows "\<exists>entries. files w1 f = Some (Records entries)
           \<and> (\<exists>e. find (\<lambda>e. entry_params e = params ev) entries = Some e
                     \<and> entry_results e = r)"
proof (cases "files w f")
  case None
  with assms obtain w' where "evaluate ev w = Inr (r, w')"
    and "w1 = w'\<lparr>files := (files w')(f \<mapsto>
                Records [\<lparr>entry_params = params ev, entry_results = r\<rparr>])\<rparr>"
    by (auto simp: cached_evaluate_def bind_err_Inr_iff)
  then show ?thesis
    by simp
next
  case (Some content)
  show ?thesis
  proof (cases content)
    case NotJson
    with Some assms show ?thesis
      by (simp add: cached_evaluate_def)
  next
    case (Records entries)
    show ?thesis
    proof (cases "find (\<lambda>e. entry_params e = params ev) entries")
      case (Some e)
      with \<open>files w f = Some content\<close> Records assms show ?thesis
        by (auto simp: cached_evaluate_def)
    next
      case None
      with \<open>files w f = Some content\<close> Records assms obtain w' where
        "evaluate ev w = Inr (r, w')"
        and "w1 = w'\<lparr>files := (files w')(f \<mapsto>
                Records (entries @ [\<lparr>entry_params = params ev, entry_results = r\<rparr>]))\<rparr>"
        by (auto simp: cached_evaluate_def bind_err_Inr_iff)
      then show ?thesis
        using None by (simp add: find_snoc)
    qed
  qed
qed

text \<open>
  C4: with a cache file that exists, \<^verbatim>\<open>cached_evaluate\<close> returns the results of the
  first record whose fingerprint equals the evaluator's, and leaves the world as it is
  (no forward pass is counted and the file keeps every record, later matches included).
  On a miss (no file, or no record with this fingerprint) it returns what \<^verbatim>\<open>evaluate\<close>
  returns, after the two forward passes of every question, and writes to the file the
  records it read followed by the new one. Hence after a call that returned with a cache
  file, a call by an evaluator with the same fingerprint on the same file returns the same
  result and changes nothing.
\<close>

theorem cached_evaluate_lookup:
  "(files w f = Some (Records entries) \<and> i < length entries
      \<and> entry_params (entries ! i) = params ev
      \<and> (\<forall>j<i. entry_params (entries ! j) \<noteq> params ev)
      \<longrightarrow> cached_evaluate ev (Some f) w = Inr (entry_results (entries ! i), w))
   \<and> ((files w0 f = None \<and> old = []
        \<or> files w0 f = Some (Records old)
          \<and> list_all (\<lambda>e. entry_params e \<noteq> params ev) old)
       \<and> evaluate ev w0 = Inr (r, w')
      \<longrightarrow> cached_evaluate ev (Some f) w0
            = Inr (r, w'\<lparr>files := (files w0)(f \<mapsto>
                 Records (old @ [\<lparr>entry_params = params ev, entry_results = r\<rparr>]))\<rparr>)
          \<and> forward_calls w' = forward_calls w0 + 2 * length (questions ev))
   \<and> (cached_evaluate ev (Some f) w2 = Inr (r1, w1) \<and> params ev2 = params ev
      \<longrightarrow> cached_evaluate ev2 (Some f) w1 = Inr (r1, w1))"
proof (intro conjI impI)
  assume "files w f = Some (Records entries) \<and> i < length entries
      \<and> entry_params (entries ! i) = params ev
      \<and> (\<forall>j<i. entry_params (entries ! j) \<noteq> params ev)"
  then have "files w f = Some (Records entries)"
    and "find (\<lambda>e. entry_params e = params ev) entries = Some (entries ! i)"
    by (auto intro: find_first)
  then show "cached_evaluate ev (Some f) w = Inr (entry_results (entries ! i), w)"
    by (rule cached_evaluate_hit)
next
  assume h: "(files w0 f = None \<and> old = []
        \<or> files w0 f = Some (Records old)
          \<and> list_all (\<lambda>e. entry_params e \<noteq> params ev) old)
       \<and> evaluate ev w0 = Inr (r, w')"
  then have run: "evaluate ev w0 = Inr (r, w')"
    by simp
  from h have miss: "files w0 f = None \<and> old = []
           \<or> files w0 f = Some (Records old)
             \<and> find (\<lambda>e. entry_params e = params ev) old = None"
    by (auto simp: find_None_iff list_all_iff)
  from evaluate_files [OF run] have fs: "files w' = files w0"
    and calls: "forward_calls w' = forward_calls w0 + 2 * length (questions ev)"
    by simp_all
  show "cached_evaluate ev (Some f) w0
            = Inr (r, w'\<lparr>files := (files w0)(f \<mapsto>
                 Records (old @ [\<lparr>entry_params = params ev, entry_results = r\<rparr>]))\<rparr>)"
    using cached_evaluate_miss [OF miss run] by (simp add: fs)
  show "forward_calls w' = forward_calls w0 + 2 * length (questions ev)"
    by (rule calls)
next
  assume h: "cached_evaluate ev (Some f) w2 = Inr (r1, w1) \<and> params ev2 = params ev"
  then obtain entries e where "files w1 f = Some (Records entries)"
    and "find (\<lambda>e. entry_params e = params ev2) entries = Some e" and "entry_results e = r1"
    using cached_evaluate_InrD [of ev f w2 r1 w1] by auto
  then show "cached_evaluate ev2 (Some f) w1 = Inr (r1, w1)"
    using cached_evaluate_hit [of w1 f entries ev2 e] by simp
qed

theorem cached_evaluate_lookup_witness:
  "cached_evaluate (toy_evaluator [toy_question 0]) (Some ''results.json'') cached_world
     = Inr (EvaluationResult_default\<lparr>accuracy := Fl 1\<rparr>, cached_world)
   \<and> (\<exists>r w'. cached_evaluate (toy_evaluator [toy_question 0]) (Some ''results.json'') world0
                = Inr (r, w')
        \<and> files w' ''results.json''
            = Some (Records [\<lparr>entry_params = params (toy_evaluator [toy_question 0]),
                              entry_results = r\<rparr>])
        \<and> forward_calls w' = 2
        \<and> cached_evaluate (toy_evaluator [toy_question 1]) (Some ''results.json'') w'
            = Inr (r, w'))"
proof
  define ev where "ev = toy_evaluator [toy_question 0]"
  define f where "f = ''results.json''"
  define entries where "entries =
         [\<lparr>entry_params = params (toy_evaluator []), entry_results = EvaluationResult_default\<rparr>,
          \<lparr>entry_params = params ev,
           entry_results = EvaluationResult_default\<lparr>accuracy := Fl 1\<rparr>\<rparr>,
          \<lparr>entry_params = params ev, entry_results = EvaluationResult_default\<rparr>]"
  have h: "files cached_world f = Some (Records entries) \<and> 1 < length entries
      \<and> entry_params (entries ! 1) = params ev
      \<and> (\<forall>j<1. entry_params (entries ! j) \<noteq> params ev)"
    by (simp add: cached_world_def params_def toy_evaluator_def entries_def ev_def f_def)
  have "cached_evaluate ev (Some f) cached_world = Inr (entry_results (entries ! 1), cached_world)"
    by (rule cached_evaluate_lookup [where w = cached_world and f = f and entries = entries
          and i = 1 and ev = ev, THEN conjunct1, THEN mp, OF h])
  then show "cached_evaluate (toy_evaluator [toy_question 0]) (Some ''results.json'') cached_world
     = Inr (EvaluationResult_default\<lparr>accuracy := Fl 1\<rparr>, cached_world)"
    by (simp add: entries_def ev_def f_def)
next
  define ev where "ev = toy_evaluator [toy_question 0]"
  define ev2 where "ev2 = toy_evaluator [toy_question 1]"
  define f where "f = ''results.json''"
  obtain r w1 where run: "evaluate ev world0 = Inr (r, w1)"
    unfolding ev_def by (simp add: run_defs toy_defs)
  have absent: "files world0 f = None"
    by (simp add: world0_def)
  have same: "params ev2 = params ev"
    by (simp add: params_def toy_evaluator_def ev_def ev2_def)
  define w' where "w' = w1\<lparr>files := (files world0)(f \<mapsto>
       Records ([] @ [\<lparr>entry_params = params ev, entry_results = r\<rparr>]))\<rparr>"
  have h2: "(files world0 f = None \<and> ([] :: nat cache_entry list) = []
        \<or> files world0 f = Some (Records [])
          \<and> list_all (\<lambda>e. entry_params e \<noteq> params ev) [])
       \<and> evaluate ev world0 = Inr (r, w1)"
    using absent run by simp
  have m: "cached_evaluate ev (Some f) world0 = Inr (r, w')
          \<and> forward_calls w1 = forward_calls world0 + 2 * length (questions ev)"
    unfolding w'_def
    by (rule cached_evaluate_lookup [where ?w0.0 = world0 and f = f and old = "[]" and ev = ev
          and r = r and w' = w1, THEN conjunct2, THEN conjunct1, THEN mp, OF h2])
  then have miss: "cached_evaluate ev (Some f) world0 = Inr (r, w')"
    and calls: "forward_calls w1 = forward_calls world0 + 2 * length (questions ev)"
    by simp_all
  have h3: "cached_evaluate ev (Some f) world0 = Inr (r, w') \<and> params ev2 = params ev"
    using miss same by simp
  have again: "cached_evaluate ev2 (Some f) w' = Inr (r, w')"
    by (rule cached_evaluate_lookup [where f = f and ev = ev and ?w2.0 = world0 and ?r1.0 = r
          and ?w1.0 = w' and ?ev2.0 = ev2, THEN conjunct2, THEN conjunct2, THEN mp, OF h3])
  have stored: "files w' f = Some (Records [\<lparr>entry_params = params ev, entry_results = r\<rparr>])"
    by (simp add: w'_def)
  have two: "forward_calls w' = 2"
    using calls by (simp add: w'_def world0_def toy_evaluator_def ev_def)
  have "cached_evaluate ev (Some f) world0 = Inr (r, w')
        \<and> files w' f = Some (Records [\<lparr>entry_params = params ev, entry_results = r\<rparr>])
        \<and> forward_calls w' = 2
        \<and> cached_evaluate ev2 (Some f) w' = Inr (r, w')"
    using miss stored two again by simp
  then show "\<exists>r w'. cached_evaluate (toy_evaluator [toy_question 0]) (Some ''results.json'') world0
                = Inr (r, w')
        \<and> files w' ''results.json''
            = Some (Records [\<lparr>entry_params = params (toy_evaluator [toy_question 0]),
                              entry_results = r\<rparr>])
        \<and> forward_calls w' = 2
        \<and> cached_evaluate (toy_evaluator [toy_question 1]) (Some ''results.json'') w'
            = Inr (r, w')"
    unfolding ev_def ev2_def f_def by (intro exI)
qed

end
